theory Spec2Isabelle
  imports Complex_Main "HOL-Library.Word"
begin

section \<open>JavaScript numbers\<close>

text \<open>
  The filter engine (\<^verbatim>\<open>utils/imageFilters\<close>, \<^verbatim>\<open>applyFiltersToCanvas\<close>) computes with
  JavaScript numbers. A number is modelled as an exact real, or one of the three
  non-finite values that the program can produce by dividing by zero: dividing by zero
  does not raise in JavaScript, it yields an infinity or NaN, which then flows through
  the remaining arithmetic. The operations below give the exact finite result; the
  rounding of a result to binary64 is the separate function \<open>jround\<close>, applied where
  the program floors a computed quotient (the size of the working buffer), since there
  the rounding decides the integer that results. The sign of zero is not modelled.
\<close>

datatype jsnum = Fin real | PInf | NInf | NaN

fun jneg :: "jsnum \<Rightarrow> jsnum" where
  "jneg (Fin a) = Fin (- a)"
| "jneg PInf = NInf"
| "jneg NInf = PInf"
| "jneg NaN = NaN"

fun jadd :: "jsnum \<Rightarrow> jsnum \<Rightarrow> jsnum" where
  "jadd (Fin a) (Fin b) = Fin (a + b)"
| "jadd NaN _ = NaN"
| "jadd _ NaN = NaN"
| "jadd PInf NInf = NaN"
| "jadd NInf PInf = NaN"
| "jadd PInf _ = PInf"
| "jadd _ PInf = PInf"
| "jadd NInf _ = NInf"
| "jadd _ NInf = NInf"

definition jsub :: "jsnum \<Rightarrow> jsnum \<Rightarrow> jsnum" where
  "jsub a b = jadd a (jneg b)"

text \<open>The sign of a number that is not NaN, used by the rules for infinite operands.\<close>

fun jsign :: "jsnum \<Rightarrow> real" where
  "jsign (Fin a) = sgn a"
| "jsign PInf = 1"
| "jsign NInf = - 1"
| "jsign NaN = 0"

definition signed_inf :: "real \<Rightarrow> jsnum" where
  "signed_inf s = (if s = 0 then NaN else if 0 < s then PInf else NInf)"

fun jmul :: "jsnum \<Rightarrow> jsnum \<Rightarrow> jsnum" where
  "jmul (Fin a) (Fin b) = Fin (a * b)"
| "jmul NaN _ = NaN"
| "jmul _ NaN = NaN"
| "jmul a b = signed_inf (jsign a * jsign b)"

text \<open>
  Division: a finite number divided by zero is an infinity of the dividend's sign
  (the zero divisors of this program, \<^verbatim>\<open>259 - contrast\<close> and a zero pixel size, are
  positive zeros), and \<^verbatim>\<open>0 / 0\<close> is NaN.
\<close>

fun jdiv :: "jsnum \<Rightarrow> jsnum \<Rightarrow> jsnum" where
  "jdiv (Fin a) (Fin b) = (if b = 0 then signed_inf a else Fin (a / b))"
| "jdiv NaN _ = NaN"
| "jdiv _ NaN = NaN"
| "jdiv (Fin a) PInf = Fin 0"
| "jdiv (Fin a) NInf = Fin 0"
| "jdiv PInf (Fin b) = (if 0 \<le> b then PInf else NInf)"
| "jdiv NInf (Fin b) = (if 0 \<le> b then NInf else PInf)"
| "jdiv _ _ = NaN"

text \<open>The remainder operator \<^verbatim>\<open>%\<close>: the result has the sign of the dividend.\<close>

fun jmod :: "jsnum \<Rightarrow> jsnum \<Rightarrow> jsnum" where
  "jmod (Fin a) (Fin b) =
     (if b = 0 then NaN
      else Fin (a - b * of_int (if 0 \<le> a / b then \<lfloor>a / b\<rfloor> else \<lceil>a / b\<rceil>)))"
| "jmod (Fin a) PInf = Fin a"
| "jmod (Fin a) NInf = Fin a"
| "jmod _ _ = NaN"

fun jfloor :: "jsnum \<Rightarrow> jsnum" where
  "jfloor (Fin a) = Fin (of_int \<lfloor>a\<rfloor>)"
| "jfloor a = a"

fun jsqrt :: "jsnum \<Rightarrow> jsnum" where
  "jsqrt (Fin a) = (if a < 0 then NaN else Fin (sqrt a))"
| "jsqrt PInf = PInf"
| "jsqrt _ = NaN"

text \<open>The comparison \<^verbatim>\<open>a > b\<close>: false as soon as an operand is NaN.\<close>

fun jgt :: "jsnum \<Rightarrow> jsnum \<Rightarrow> bool" where
  "jgt (Fin a) (Fin b) = (b < a)"
| "jgt NaN _ = False"
| "jgt _ NaN = False"
| "jgt PInf PInf = False"
| "jgt PInf _ = True"
| "jgt NInf _ = False"
| "jgt _ NInf = True"
| "jgt _ PInf = False"

text \<open>\<^verbatim>\<open>Math.max\<close> and \<^verbatim>\<open>Math.min\<close> of two numbers: NaN if an argument is NaN.\<close>

definition jmax :: "jsnum \<Rightarrow> jsnum \<Rightarrow> jsnum" where
  "jmax a b = (if a = NaN \<or> b = NaN then NaN else if jgt a b then a else b)"

definition jmin :: "jsnum \<Rightarrow> jsnum \<Rightarrow> jsnum" where
  "jmin a b = (if a = NaN \<or> b = NaN then NaN else if jgt a b then b else a)"

subsection \<open>Rounding to binary64\<close>

text \<open>Rounding a real to the nearest integer, ties to the even one.\<close>

definition roundHalfEven :: "real \<Rightarrow> int" where
  "roundHalfEven t =
     (let f = \<lfloor>t\<rfloor>; d = t - of_int f in
      if d < 1 / 2 then f else if 1 / 2 < d then f + 1 else if even f then f else f + 1)"

text \<open>
  The binary exponent of a positive real \<open>a\<close>, that is the \<open>e\<close> with
  \<open>2 ^ e \<le> a < 2 ^ (e + 1)\<close>, found by halving or doubling. The search stops at the
  ends of the exponent range of binary64: the result is 1024 for \<open>a \<ge> 2 ^ 1024\<close>
  and -1022 for every \<open>a < 2 ^ -1022\<close> (the subnormal numbers share the exponent
  -1022).
\<close>

fun expUp :: "nat \<Rightarrow> real \<Rightarrow> int" where
  "expUp 0 a = 0"
| "expUp (Suc n) a = (if a < 2 then 0 else 1 + expUp n (a / 2))"

fun expDown :: "nat \<Rightarrow> real \<Rightarrow> int" where
  "expDown 0 a = 0"
| "expDown (Suc n) a = (if 1 \<le> a then 0 else expDown n (2 * a) - 1)"

definition exponent :: "real \<Rightarrow> int" where
  "exponent a = (if 1 \<le> a then expUp 1024 a else expDown 1022 a)"

text \<open>
  The binary64 number nearest to a real (IEEE 754 round to nearest, ties to even): the
  magnitude is rounded to a multiple \<open>m\<close> of the unit \<open>2 ^ (e - 52)\<close> of its binade,
  a significand of 53 bits. A magnitude that rounds to \<open>2 ^ 1024\<close> or more becomes an
  infinity.
\<close>

definition binary64 :: "real \<Rightarrow> jsnum" where
  "binary64 x =
     (if x = 0 then Fin 0
      else
        (let a = \<bar>x\<bar>;
             e = exponent a;
             u = 2 powi (e - 52);
             m = roundHalfEven (a / u)
         in if 1023 < e \<or> (e = 1023 \<and> 2 ^ 53 \<le> m) then (if 0 < x then PInf else NInf)
            else Fin (sgn x * (of_int m * u))))"

text \<open>The value that an arithmetic operation stores: its exact result, rounded.\<close>

fun jround :: "jsnum \<Rightarrow> jsnum" where
  "jround (Fin a) = binary64 a"
| "jround a = a"

section \<open>Types of the filter engine\<close>

text \<open>
  \<^verbatim>\<open>DitherMode\<close> is a string enum: at run time a mode is a string, and the engine's
  \<^verbatim>\<open>switch\<close> compares it with the four names. The fields of \<^verbatim>\<open>FilterSettings\<close>
  are numbers, a string, a boolean and two hex colour strings.
\<close>

definition BAYER :: string where "BAYER = ''BAYER''"
definition THRESHOLD :: string where "THRESHOLD = ''THRESHOLD''"
definition HALFTONE :: string where "HALFTONE = ''HALFTONE''"
definition STOCHASTIC :: string where "STOCHASTIC = ''STOCHASTIC''"

record FilterSettings =
  pixelSize :: jsnum
  contrast :: jsnum
  brightness :: jsnum
  threshold :: jsnum
  mode :: string
  invert :: bool
  dotScale :: jsnum
  colorA :: string
  colorB :: string

text \<open>One RGBA sample of an \<^verbatim>\<open>ImageData\<close> buffer (four bytes of a \<^verbatim>\<open>Uint8ClampedArray\<close>).\<close>

record rgba =
  chR :: "8 word"
  chG :: "8 word"
  chB :: "8 word"
  chA :: "8 word"

text \<open>The object \<^verbatim>\<open>{ r, g, b }\<close> that \<^verbatim>\<open>hexToRgb\<close> returns.\<close>

record rgb =
  rgb_r :: jsnum
  rgb_g :: jsnum
  rgb_b :: jsnum

datatype js_exception = TypeError | IndexSizeError | InvalidStateError

section \<open>Parsing the palette colours\<close>

text \<open>
  \<^verbatim>\<open>parseInt(s, 16)\<close>: leading white space is skipped, a sign and a prefix
  \<^verbatim>\<open>0x\<close> are accepted, then the longest run of hexadecimal digits is read; with no
  digit the result is NaN. A character stands for a code unit below 256; the white
  space and line terminators in that range are the five control characters, the space
  and the no-break space (160).
\<close>

definition isWhiteSpace :: "char \<Rightarrow> bool" where
  "isWhiteSpace c = (of_char c \<in> {9, 10, 11, 12, 13, 32, 160 :: nat})"

definition hexDigit :: "char \<Rightarrow> nat option" where
  "hexDigit c = (let n = of_char c :: nat in
     if 48 \<le> n \<and> n \<le> 57 then Some (n - 48)
     else if 97 \<le> n \<and> n \<le> 102 then Some (n - 87)
     else if 65 \<le> n \<and> n \<le> 70 then Some (n - 55)
     else None)"

fun hexPrefix :: "string \<Rightarrow> nat option \<Rightarrow> nat option" where
  "hexPrefix [] acc = acc"
| "hexPrefix (c # cs) acc =
     (case hexDigit c of
        None \<Rightarrow> acc
      | Some d \<Rightarrow> hexPrefix cs (Some (16 * (case acc of None \<Rightarrow> 0 | Some a \<Rightarrow> a) + d)))"

fun stripSign :: "string \<Rightarrow> real \<times> string" where
  "stripSign (c # cs) =
     (if c = CHR ''-'' then (- 1, cs) else if c = CHR ''+'' then (1, cs) else (1, c # cs))"
| "stripSign [] = (1, [])"

fun stripHexPrefix :: "string \<Rightarrow> string" where
  "stripHexPrefix (c # d # cs) =
     (if c = CHR ''0'' \<and> (d = CHR ''x'' \<or> d = CHR ''X'') then cs else c # d # cs)"
| "stripHexPrefix cs = cs"

definition parseInt16 :: "string \<Rightarrow> jsnum" where
  "parseInt16 s =
     (case stripSign (dropWhile isWhiteSpace s) of
        (sign, t) \<Rightarrow>
          (case hexPrefix (stripHexPrefix t) None of
             None \<Rightarrow> NaN
           | Some n \<Rightarrow> Fin (sign * real n)))"

text \<open>\<^verbatim>\<open>hex.slice(a, b)\<close> for \<^verbatim>\<open>0 <= a <= b\<close>.\<close>

definition slice :: "nat \<Rightarrow> nat \<Rightarrow> string \<Rightarrow> string" where
  "slice a b s = take (b - a) (drop a s)"

definition hexToRgb :: "string \<Rightarrow> rgb" where
  "hexToRgb hex =
     \<lparr>rgb_r = parseInt16 (slice 1 3 hex),
      rgb_g = parseInt16 (slice 3 5 hex),
      rgb_b = parseInt16 (slice 5 7 hex)\<rparr>"

text \<open>
  Storing a number into a \<^verbatim>\<open>Uint8ClampedArray\<close>: NaN becomes 0, other values are
  clamped to \<open>0..255\<close> and rounded to the nearest integer, ties to even.
\<close>

fun toUint8Clamped :: "jsnum \<Rightarrow> 8 word" where
  "toUint8Clamped (Fin a) =
     (if a \<le> 0 then 0 else if 255 \<le> a then 255 else of_int (roundHalfEven a))"
| "toUint8Clamped PInf = 255"
| "toUint8Clamped _ = 0"

section \<open>The per-pixel pipeline\<close>

text \<open>
  \<^verbatim>\<open>BAYER_4X4\<close>: the matrix of the source with every entry divided by 16.
\<close>

definition BAYER_4X4 :: "jsnum list list" where
  "BAYER_4X4 =
     map (map (\<lambda>v. jdiv (Fin v) (Fin 16)))
       [[0, 8, 2, 10], [12, 4, 14, 6], [3, 11, 1, 9], [15, 7, 13, 5]]"

text \<open>
  Indexing an array with a number: a number that is a natural number below the length
  selects an element, any other number gives \<^verbatim>\<open>undefined\<close> (\<open>None\<close>).
\<close>

fun arrayIndex :: "'a list \<Rightarrow> jsnum \<Rightarrow> 'a option" where
  "arrayIndex xs (Fin a) =
     (if 0 \<le> a \<and> a = of_int \<lfloor>a\<rfloor> \<and> nat \<lfloor>a\<rfloor> < length xs then Some (xs ! nat \<lfloor>a\<rfloor>) else None)"
| "arrayIndex xs _ = None"

text \<open>
  \<^verbatim>\<open>BAYER_4X4[yi][xi]\<close>: reading a property of \<^verbatim>\<open>undefined\<close> throws a TypeError,
  and an \<^verbatim>\<open>undefined\<close> entry becomes NaN in the arithmetic that follows.
\<close>

definition bayerAt :: "jsnum \<Rightarrow> jsnum \<Rightarrow> js_exception + jsnum" where
  "bayerAt yi xi =
     (case arrayIndex BAYER_4X4 yi of
        None \<Rightarrow> Inl TypeError
      | Some row \<Rightarrow> Inr (case arrayIndex row xi of None \<Rightarrow> NaN | Some v \<Rightarrow> v))"

text \<open>
  \<^verbatim>\<open>const contrastFactor = (259 * (contrast + 255)) / (255 * (259 - contrast));\<close>
\<close>

definition contrastFactor :: "jsnum \<Rightarrow> jsnum" where
  "contrastFactor c =
     jdiv (jmul (Fin 259) (jadd c (Fin 255))) (jmul (Fin 255) (jsub (Fin 259) c))"

text \<open>
  \<^verbatim>\<open>r = contrastFactor * (r - 128) + 128 + brightness;\<close> for one channel.
\<close>

definition toneChannel :: "jsnum \<Rightarrow> jsnum \<Rightarrow> jsnum \<Rightarrow> jsnum" where
  "toneChannel cf br ch = jadd (jadd (jmul cf (jsub ch (Fin 128))) (Fin 128)) br"

text \<open>
  \<^verbatim>\<open>let gray = (0.299 * r + 0.587 * g + 0.114 * b) / 255;\<close>
  \<^verbatim>\<open>gray = Math.min(1, Math.max(0, gray));\<close>
\<close>

definition luminance :: "jsnum \<Rightarrow> jsnum \<Rightarrow> jsnum \<Rightarrow> jsnum" where
  "luminance r g b =
     (let gray = jdiv (jadd (jadd (jmul (Fin 0.299) r) (jmul (Fin 0.587) g)) (jmul (Fin 0.114) b))
                   (Fin 255)
      in jmin (Fin 1) (jmax (Fin 0) gray))"

text \<open>
  The \<^verbatim>\<open>switch (mode)\<close> of the loop body; \<open>u\<close> is the value that \<^verbatim>\<open>Math.random()\<close>
  returns for this pixel (it is only read in the STOCHASTIC case). The result is the
  bit \<^verbatim>\<open>output\<close>, or the exception thrown by the matrix lookup.
\<close>

definition ditherOutput ::
  "FilterSettings \<Rightarrow> jsnum \<Rightarrow> jsnum \<Rightarrow> jsnum \<Rightarrow> real \<Rightarrow> js_exception + int" where
  "ditherOutput s gray x y u =
     (if mode s = BAYER then
        (case bayerAt (jmod y (Fin 4)) (jmod x (Fin 4)) of
           Inl e \<Rightarrow> Inl e
         | Inr m \<Rightarrow>
             Inr (if jgt gray (jadd (jmul m (Fin 0.8))
                                 (jmul (jdiv (threshold s) (Fin 255)) (Fin 0.2)))
                  then 1 else 0))
      else if mode s = HALFTONE then
        (let dx = jsub (jdiv (jmod x (Fin 2)) (Fin 2)) (Fin 0.5);
             dy = jsub (jdiv (jmod y (Fin 2)) (Fin 2)) (Fin 0.5)
         in Inr (if jgt gray (jadd (jmul (jsqrt (jadd (jmul dx dx) (jmul dy dy))) (dotScale s))
                                (jmul (jdiv (threshold s) (Fin 255)) (Fin 0.2)))
                 then 1 else 0))
      else if mode s = STOCHASTIC then
        Inr (if jgt gray (jadd (jmul (Fin u) (Fin 0.6))
                            (jmul (jdiv (threshold s) (Fin 255)) (Fin 0.4)))
             then 1 else 0)
      else
        Inr (if jgt gray (jdiv (threshold s) (Fin 255)) then 1 else 0))"

text \<open>\<^verbatim>\<open>if (invert) output = 1 - output;\<close>\<close>

definition applyInvert :: "FilterSettings \<Rightarrow> int \<Rightarrow> int" where
  "applyInvert s output = (if invert s then 1 - output else output)"

text \<open>The output bit of one pixel after the dither decision and the invert step.\<close>

definition pixelBit ::
  "FilterSettings \<Rightarrow> jsnum \<Rightarrow> jsnum \<Rightarrow> jsnum \<Rightarrow> real \<Rightarrow> js_exception + int" where
  "pixelBit s gray x y u =
     (case ditherOutput s gray x y u of
        Inl e \<Rightarrow> Inl e
      | Inr output \<Rightarrow> Inr (applyInvert s output))"

text \<open>
  The palette write: \<^verbatim>\<open>finalColor = output === 1 ? rgbB : rgbA\<close>, its three
  channels stored into the buffer and the alpha byte set to 255.
\<close>

definition paletteWrite :: "rgb \<Rightarrow> rgb \<Rightarrow> int \<Rightarrow> rgba" where
  "paletteWrite rgbA rgbB output =
     (let finalColor = (if output = 1 then rgbB else rgbA)
      in \<lparr>chR = toUint8Clamped (rgb_r finalColor),
          chG = toUint8Clamped (rgb_g finalColor),
          chB = toUint8Clamped (rgb_b finalColor),
          chA = 255\<rparr>)"

text \<open>
  The luminance of a buffer pixel after the tone adjustment (the first half of the loop
  body).
\<close>

definition pixelGray :: "jsnum \<Rightarrow> jsnum \<Rightarrow> rgba \<Rightarrow> jsnum" where
  "pixelGray cf br p =
     luminance (toneChannel cf br (Fin (real (unat (chR p)))))
               (toneChannel cf br (Fin (real (unat (chG p)))))
               (toneChannel cf br (Fin (real (unat (chB p)))))"

text \<open>
  One iteration of the loop, for the pixel with index \<open>k = i / 4\<close> of a buffer whose
  row length is the number \<open>w\<close>: \<^verbatim>\<open>x = (i / 4) % w\<close>, \<^verbatim>\<open>y = Math.floor((i / 4) / w)\<close>.
\<close>

definition processPixel ::
  "FilterSettings \<Rightarrow> rgb \<Rightarrow> rgb \<Rightarrow> jsnum \<Rightarrow> jsnum \<Rightarrow> (nat \<Rightarrow> real) \<Rightarrow> nat \<Rightarrow> rgba
     \<Rightarrow> js_exception + rgba" where
  "processPixel s rgbA rgbB cf w rng k p =
     (let x = jmod (Fin (real k)) w;
          y = jfloor (jdiv (Fin (real k)) w);
          gray = pixelGray cf (brightness s) p
      in case pixelBit s gray x y (rng k) of
           Inl e \<Rightarrow> Inl e
         | Inr output \<Rightarrow> Inr (paletteWrite rgbA rgbB output))"

section \<open>Canvases\<close>

text \<open>
  The engine works through the Canvas 2D interface of the browser. A canvas is modelled
  by its size, its bitmap, and whether \<^verbatim>\<open>getContext('2d')\<close> yields a context
  (it yields \<^verbatim>\<open>null\<close> for a canvas that is already bound to another context type).
  Sizes are natural numbers; the platform's upper limits on canvas sizes are not
  modelled.
\<close>

record canvas =
  cwidth :: nat
  cheight :: nat
  cpix :: "nat \<Rightarrow> nat \<Rightarrow> rgba"
  has2d :: bool

record imagedata =
  iwidth :: nat
  iheight :: nat
  idata :: "rgba list"

text \<open>
  A drawable source (\<^verbatim>\<open>CanvasImageSource\<close>: the decoded image or the current video
  frame) is given by its rendering at every target size: \<open>src w h x y\<close> is the sample
  at \<open>(x, y)\<close> when the source is drawn scaled to \<open>w\<close> by \<open>h\<close> with the platform's
  default resampling.
\<close>

type_synonym source = "nat \<Rightarrow> nat \<Rightarrow> nat \<Rightarrow> nat \<Rightarrow> rgba"

definition transparent :: rgba where
  "transparent = \<lparr>chR = 0, chG = 0, chB = 0, chA = 0\<rparr>"

text \<open>\<^verbatim>\<open>document.createElement('canvas')\<close>: a fresh, transparent canvas of 300 by 150.\<close>

definition createCanvas :: canvas where
  "createCanvas = \<lparr>cwidth = 300, cheight = 150, cpix = (\<lambda>x y. transparent), has2d = True\<rparr>"

text \<open>Conversion of a number to an integer truncates towards zero.\<close>

definition jsTrunc :: "real \<Rightarrow> int" where
  "jsTrunc a = (if 0 \<le> a then \<lfloor>a\<rfloor> else \<lceil>a\<rceil>)"

text \<open>
  Assigning a number to \<^verbatim>\<open>canvas.width\<close> or \<^verbatim>\<open>canvas.height\<close> (an
  \<^verbatim>\<open>unsigned long\<close> attribute): NaN and the infinities become 0, a negative integer
  wraps into the upper half of the range, for which the attribute takes its default
  value \<open>d\<close>. The assignment clears the bitmap.
\<close>

fun canvasDim :: "nat \<Rightarrow> jsnum \<Rightarrow> nat" where
  "canvasDim d (Fin a) = (if jsTrunc a < 0 then d else nat (jsTrunc a))"
| "canvasDim d _ = 0"

definition setWidth :: "canvas \<Rightarrow> jsnum \<Rightarrow> canvas" where
  "setWidth c v = c\<lparr>cwidth := canvasDim 300 v, cpix := (\<lambda>x y. transparent)\<rparr>"

definition setHeight :: "canvas \<Rightarrow> jsnum \<Rightarrow> canvas" where
  "setHeight c v = c\<lparr>cheight := canvasDim 150 v, cpix := (\<lambda>x y. transparent)\<rparr>"

text \<open>
  \<^verbatim>\<open>tempCtx.drawImage(source, 0, 0, w, h)\<close> on the cleared working canvas; \<open>w\<close> and
  \<open>h\<close> are results of \<^verbatim>\<open>Math.floor\<close>. With a non-finite argument the call returns
  without drawing; a target rectangle of zero area, or one that extends to the left of
  or above the origin (negative size), leaves the canvas unchanged.
\<close>

fun drawSource :: "source \<Rightarrow> jsnum \<Rightarrow> jsnum \<Rightarrow> canvas \<Rightarrow> canvas" where
  "drawSource src (Fin a) (Fin b) c =
     (if 0 < a \<and> 0 < b then
        c\<lparr>cpix := (\<lambda>x y.
             if x < nat \<lfloor>a\<rfloor> \<and> y < nat \<lfloor>b\<rfloor> \<and> x < cwidth c \<and> y < cheight c
             then src (nat \<lfloor>a\<rfloor>) (nat \<lfloor>b\<rfloor>) x y else cpix c x y)\<rparr>
      else c)"
| "drawSource src _ _ c = c"

text \<open>A pixel read at integer coordinates: transparent black outside the bitmap.\<close>

definition readPx :: "canvas \<Rightarrow> int \<Rightarrow> int \<Rightarrow> rgba" where
  "readPx c x y =
     (if 0 \<le> x \<and> x < int (cwidth c) \<and> 0 \<le> y \<and> y < int (cheight c)
      then cpix c (nat x) (nat y) else transparent)"

text \<open>
  \<^verbatim>\<open>tempCtx.getImageData(0, 0, w, h)\<close>. By the web platform standard the call throws an
  IndexSizeError when the width or the height is zero, a non-finite argument is a
  TypeError, and a negative size denotes the rectangle on the other side of the origin.
\<close>

fun getImageData :: "canvas \<Rightarrow> jsnum \<Rightarrow> jsnum \<Rightarrow> js_exception + imagedata" where
  "getImageData c (Fin a) (Fin b) =
     (let sw = jsTrunc a; sh = jsTrunc b; nw = nat \<bar>sw\<bar>; nh = nat \<bar>sh\<bar>
      in if sw = 0 \<or> sh = 0 then Inl IndexSizeError
         else Inr \<lparr>iwidth = nw, iheight = nh,
                   idata = map (\<lambda>k. readPx c (min 0 sw + int (k mod nw)) (min 0 sh + int (k div nw)))
                             [0..<nw * nh]\<rparr>)"
| "getImageData c _ _ = Inl TypeError"

text \<open>\<^verbatim>\<open>tempCtx.putImageData(imageData, 0, 0)\<close>.\<close>

definition putImageData :: "canvas \<Rightarrow> imagedata \<Rightarrow> canvas" where
  "putImageData c img =
     c\<lparr>cpix := (\<lambda>x y.
          if x < iwidth img \<and> y < iheight img \<and> x < cwidth c \<and> y < cheight c
          then idata img ! (y * iwidth img + x) else cpix c x y)\<rparr>"

text \<open>
  \<^verbatim>\<open>outCtx.drawImage(tempCanvas, 0, 0, sourceWidth, sourceHeight)\<close> with
  \<^verbatim>\<open>imageSmoothingEnabled = false\<close>: nearest-neighbour scaling, every target pixel
  takes the source pixel under its centre. A source canvas without area is an
  InvalidStateError. The target has just been cleared, so drawing copies the samples.
\<close>

definition nearest :: "nat \<Rightarrow> nat \<Rightarrow> nat \<Rightarrow> nat" where
  "nearest n d i = ((2 * i + 1) * n) div (2 * d)"

definition drawCanvas :: "canvas \<Rightarrow> nat \<Rightarrow> nat \<Rightarrow> canvas \<Rightarrow> js_exception + canvas" where
  "drawCanvas src dw dh dst =
     (if cwidth src = 0 \<or> cheight src = 0 then Inl InvalidStateError
      else Inr (dst\<lparr>cpix := (\<lambda>x y.
                  if x < dw \<and> y < dh \<and> x < cwidth dst \<and> y < cheight dst
                  then cpix src (nearest (cwidth src) dw x) (nearest (cheight src) dh y)
                  else cpix dst x y)\<rparr>))"

section \<open>The transform\<close>

text \<open>
  The loop \<^verbatim>\<open>for (let i = 0; i < data.length; i += 4)\<close> over the pixels of the buffer,
  \<open>k\<close> being the index \<open>i / 4\<close> of the first pixel of the list. An exception ends it.
\<close>

fun filterLoop ::
  "FilterSettings \<Rightarrow> rgb \<Rightarrow> rgb \<Rightarrow> jsnum \<Rightarrow> jsnum \<Rightarrow> (nat \<Rightarrow> real) \<Rightarrow> nat \<Rightarrow> rgba list
     \<Rightarrow> js_exception + rgba list" where
  "filterLoop s rgbA rgbB cf w rng k [] = Inr []"
| "filterLoop s rgbA rgbB cf w rng k (p # ps) =
     (case processPixel s rgbA rgbB cf w rng k p of
        Inl e \<Rightarrow> Inl e
      | Inr p' \<Rightarrow>
          (case filterLoop s rgbA rgbB cf w rng (Suc k) ps of
             Inl e \<Rightarrow> Inl e
           | Inr ps' \<Rightarrow> Inr (p' # ps')))"

text \<open>
  The first part of \<^verbatim>\<open>applyFiltersToCanvas\<close>, up to \<^verbatim>\<open>tempCtx.putImageData\<close>: the
  working canvas after the loop. \<open>rng k\<close> is the value of \<^verbatim>\<open>Math.random()\<close> for pixel
  \<open>k\<close>. The result is \<open>None\<close> when the function returns because the working canvas has
  no context. The quotient \<^verbatim>\<open>scale = 1 / pixelSize\<close> and the products
  \<^verbatim>\<open>sourceWidth * scale\<close>, \<^verbatim>\<open>sourceHeight * scale\<close> are binary64 numbers: each is
  rounded before \<^verbatim>\<open>Math.floor\<close> reads it, so that for instance \<open>49 * (1 / 49)\<close>
  floors to 0.
\<close>

definition workingCanvas ::
  "(nat \<Rightarrow> real) \<Rightarrow> source \<Rightarrow> nat \<Rightarrow> nat \<Rightarrow> FilterSettings \<Rightarrow> js_exception + canvas option" where
  "workingCanvas rng src sourceWidth sourceHeight s =
     (let scale = jround (jdiv (Fin 1) (pixelSize s));
          w = jfloor (jround (jmul (Fin (real sourceWidth)) scale));
          h = jfloor (jround (jmul (Fin (real sourceHeight)) scale));
          tempCanvas = setHeight (setWidth createCanvas w) h
      in if \<not> has2d tempCanvas then Inr None
         else
           (let drawn = drawSource src w h tempCanvas
            in case getImageData drawn w h of
                 Inl e \<Rightarrow> Inl e
               | Inr imageData \<Rightarrow>
                   (case filterLoop s (hexToRgb (colorA s)) (hexToRgb (colorB s))
                           (contrastFactor (contrast s)) w rng 0 (idata imageData) of
                      Inl e \<Rightarrow> Inl e
                    | Inr data \<Rightarrow> Inr (Some (putImageData drawn (imageData\<lparr>idata := data\<rparr>))))))"

text \<open>
  \<^verbatim>\<open>applyFiltersToCanvas(source, sourceWidth, sourceHeight, settings, outputCanvas)\<close>:
  the state of the output canvas after the call, or the exception that the call throws.
  The callers pass the intrinsic size of an image or a video, a pair of natural numbers.
\<close>

definition applyFiltersToCanvas ::
  "(nat \<Rightarrow> real) \<Rightarrow> source \<Rightarrow> nat \<Rightarrow> nat \<Rightarrow> FilterSettings \<Rightarrow> canvas \<Rightarrow> js_exception + canvas" where
  "applyFiltersToCanvas rng src sourceWidth sourceHeight s outputCanvas =
     (if \<not> has2d outputCanvas then Inr outputCanvas
      else
        (case workingCanvas rng src sourceWidth sourceHeight s of
           Inl e \<Rightarrow> Inl e
         | Inr None \<Rightarrow> Inr outputCanvas
         | Inr (Some tempCanvas) \<Rightarrow>
             (let sized = setHeight (setWidth outputCanvas (Fin (real sourceWidth)))
                            (Fin (real sourceHeight))
              in if has2d sized then drawCanvas tempCanvas sourceWidth sourceHeight sized
                 else Inr sized)))"

text \<open>
  \<^verbatim>\<open>processImage(image, settings)\<close> applies the filter to a new canvas, with the
  size of the image (the data URL it returns encodes the resulting canvas).
\<close>

definition processImage ::
  "(nat \<Rightarrow> real) \<Rightarrow> source \<Rightarrow> nat \<Rightarrow> nat \<Rightarrow> FilterSettings \<Rightarrow> js_exception + canvas" where
  "processImage rng img imageWidth imageHeight s =
     applyFiltersToCanvas rng img imageWidth imageHeight s createCanvas"

text \<open>
  The pixel that the palette write stores for a colour string: the parsed channels as
  bytes, and alpha 255.
\<close>

definition palettePixel :: "string \<Rightarrow> rgba" where
  "palettePixel c =
     \<lparr>chR = toUint8Clamped (rgb_r (hexToRgb c)),
      chG = toUint8Clamped (rgb_g (hexToRgb c)),
      chB = toUint8Clamped (rgb_b (hexToRgb c)),
      chA = 255\<rparr>"

section \<open>The tone adjustment as the specification words it\<close>

text \<open>
  The formulas of the specification, over the reals: the contrast factor
  \<open>f = 259 (contrast + 255) / (255 (259 - contrast))\<close>, a channel
  \<open>f (channel - 128) + 128 + brightness\<close> with no clamping, and the luminance
  \<open>(0.299 r + 0.587 g + 0.114 b) / 255\<close> clamped to the unit interval.
\<close>

definition spec_factor :: "real \<Rightarrow> real" where
  "spec_factor c = 259 * (c + 255) / (255 * (259 - c))"




section \<open>The configuration in the application\<close>

text \<open>\<^verbatim>\<open>DEFAULT_SETTINGS\<close> and \<^verbatim>\<open>PRESETS\<close> of \<^verbatim>\<open>App.tsx\<close>.\<close>

definition DEFAULT_SETTINGS :: FilterSettings where
  "DEFAULT_SETTINGS =
     \<lparr>pixelSize = Fin 4, contrast = Fin 40, brightness = Fin 0, threshold = Fin 128,
      mode = BAYER, invert = False, dotScale = Fin 1.2,
      colorA = ''#000000'', colorB = ''#FFFFFF''\<rparr>"

definition PRESETS :: "(string \<times> string) list" where
  "PRESETS =
     [(''#000000'', ''#FFFFFF''), (''#0f380f'', ''#8bac0f''), (''#1a1000'', ''#ffb000''),
      (''#2b0035'', ''#00fff2''), (''#1e293b'', ''#f1f5f9'')]"

text \<open>
  The object that \<^verbatim>\<open>analyzeImageStyle\<close> returns, a \<^verbatim>\<open>Partial<FilterSettings>\<close>
  parsed from the reply of the remote service: every field may be absent, the fields
  that are present hold whatever the reply held.
\<close>

record PartialSettings =
  s_pixelSize :: "jsnum option"
  s_contrast :: "jsnum option"
  s_brightness :: "jsnum option"
  s_threshold :: "jsnum option"
  s_mode :: "string option"
  s_invert :: "bool option"
  s_dotScale :: "jsnum option"
  s_colorA :: "string option"
  s_colorB :: "string option"

definition emptySuggestion :: PartialSettings where
  "emptySuggestion =
     \<lparr>s_pixelSize = None, s_contrast = None, s_brightness = None, s_threshold = None,
      s_mode = None, s_invert = None, s_dotScale = None, s_colorA = None, s_colorB = None\<rparr>"

definition orElse :: "'a option \<Rightarrow> 'a \<Rightarrow> 'a" where
  "orElse v d = (case v of None \<Rightarrow> d | Some x \<Rightarrow> x)"

text \<open>\<^verbatim>\<open>setSettings(prev => ({ ...prev, ...suggested }))\<close> in \<^verbatim>\<open>runAiAnalysis\<close>.\<close>

definition mergeSuggestion :: "FilterSettings \<Rightarrow> PartialSettings \<Rightarrow> FilterSettings" where
  "mergeSuggestion prev suggested =
     \<lparr>pixelSize = orElse (s_pixelSize suggested) (pixelSize prev),
      contrast = orElse (s_contrast suggested) (contrast prev),
      brightness = orElse (s_brightness suggested) (brightness prev),
      threshold = orElse (s_threshold suggested) (threshold prev),
      mode = orElse (s_mode suggested) (mode prev),
      invert = orElse (s_invert suggested) (invert prev),
      dotScale = orElse (s_dotScale suggested) (dotScale prev),
      colorA = orElse (s_colorA suggested) (colorA prev),
      colorB = orElse (s_colorB suggested) (colorB prev)\<rparr>"

text \<open>
  The ways in which the application changes its settings: the three range inputs (the
  event carries the integer that \<^verbatim>\<open>parseInt(e.target.value)\<close> yields), the mode
  buttons, the invert switch, the two colour inputs, the preset buttons, the reset
  button, and the merge of a suggestion.
\<close>

datatype ui_event =
    PixelSizeSlider int
  | ContrastSlider int
  | ThresholdSlider int
  | ModeButton string
  | InvertToggle
  | ColorAInput string
  | ColorBInput string
  | PresetButton string string
  | ResetAll
  | AiSuggestion PartialSettings

fun handleEvent :: "FilterSettings \<Rightarrow> ui_event \<Rightarrow> FilterSettings" where
  "handleEvent s (PixelSizeSlider v) = s\<lparr>pixelSize := Fin (of_int v)\<rparr>"
| "handleEvent s (ContrastSlider v) = s\<lparr>contrast := Fin (of_int v)\<rparr>"
| "handleEvent s (ThresholdSlider v) = s\<lparr>threshold := Fin (of_int v)\<rparr>"
| "handleEvent s (ModeButton m) = s\<lparr>mode := m\<rparr>"
| "handleEvent s InvertToggle = s\<lparr>invert := \<not> invert s\<rparr>"
| "handleEvent s (ColorAInput c) = s\<lparr>colorA := c\<rparr>"
| "handleEvent s (ColorBInput c) = s\<lparr>colorB := c\<rparr>"
| "handleEvent s (PresetButton a b) = s\<lparr>colorA := a, colorB := b\<rparr>"
| "handleEvent s ResetAll = DEFAULT_SETTINGS"
| "handleEvent s (AiSuggestion suggested) = mergeSuggestion s suggested"

text \<open>A colour string of the form \<^verbatim>\<open>#rrggbb\<close>, as a colour input delivers it.\<close>

definition validHexColor :: "string \<Rightarrow> bool" where
  "validHexColor c =
     (length c = 7 \<and> take 1 c = ''#'' \<and> list_all (\<lambda>d. hexDigit d \<noteq> None) (drop 1 c))"

text \<open>
  The events that the rendered controls can emit: a range input delivers an integer
  between its \<^verbatim>\<open>min\<close> and \<^verbatim>\<open>max\<close> attributes (1 and 24 for the pixel size, -100 and
  100 for the contrast, 0 and 255 for the threshold), a mode button one of the four
  mode names, a preset button an entry of \<^verbatim>\<open>PRESETS\<close>. A suggestion is not such an
  event: its content is not under the application's control.
\<close>

fun controlEvent :: "ui_event \<Rightarrow> bool" where
  "controlEvent (PixelSizeSlider v) = (1 \<le> v \<and> v \<le> 24)"
| "controlEvent (ContrastSlider v) = (- 100 \<le> v \<and> v \<le> 100)"
| "controlEvent (ThresholdSlider v) = (0 \<le> v \<and> v \<le> 255)"
| "controlEvent (ModeButton m) = (m \<in> {BAYER, THRESHOLD, HALFTONE, STOCHASTIC})"
| "controlEvent InvertToggle = True"
| "controlEvent (ColorAInput c) = validHexColor c"
| "controlEvent (ColorBInput c) = validHexColor c"
| "controlEvent (PresetButton a b) = ((a, b) \<in> set PRESETS)"
| "controlEvent ResetAll = True"
| "controlEvent (AiSuggestion suggested) = False"

text \<open>
  The settings after a sequence of events. The application passes its current settings
  to the engine unchanged (\<^verbatim>\<open>processImage(img, currentSettings)\<close>,
  \<^verbatim>\<open>applyFiltersToCanvas(video, ..., settings, ...)\<close>).
\<close>

definition settingsAfter :: "ui_event list \<Rightarrow> FilterSettings" where
  "settingsAfter evs = foldl handleEvent DEFAULT_SETTINGS evs"

section \<open>The video export\<close>

text \<open>
  The part of the application state that a video export touches: the two export fields
  of \<^verbatim>\<open>MediaState\<close>, the video element, the state of the \<^verbatim>\<open>MediaRecorder\<close>, whether
  the \<^verbatim>\<open>ended\<close> listener and the progress timer are installed, and the number of files
  offered for download.
\<close>

record video =
  currentTime :: real
  duration :: jsnum
  loop :: bool
  ended :: bool
  paused :: bool

record app =
  isExporting :: bool
  exportProgress :: jsnum
  vid :: video
  recording :: bool
  endedListener :: bool
  progressInterval :: bool
  downloads :: nat

text \<open>
  The video element as the application renders it,
  \<^verbatim>\<open><video ... loop muted playsInline ... />\<close>: the \<^verbatim>\<open>loop\<close> attribute is set. Its
  duration is NaN until the metadata is known.
\<close>

definition videoElement :: "jsnum \<Rightarrow> video" where
  "videoElement d = \<lparr>currentTime = 0, duration = d, loop = True, ended = False, paused = False\<rparr>"

definition initialApp :: "video \<Rightarrow> app" where
  "initialApp v =
     \<lparr>isExporting = False, exportProgress = Fin 0, vid = v, recording = False,
      endedListener = False, progressInterval = False, downloads = 0\<rparr>"

text \<open>
  The video branch of \<^verbatim>\<open>exportMedia\<close>: the export flag is set and the progress reset,
  the recorder is created, playback is rewound, the \<^verbatim>\<open>ended\<close> listener is added, the
  recorder and the playback are started, and the progress timer is installed.
\<close>

definition exportMedia :: "app \<Rightarrow> app" where
  "exportMedia a =
     a\<lparr>isExporting := True, exportProgress := Fin 0,
       vid := (vid a)\<lparr>paused := False, currentTime := 0, ended := False\<rparr>,
       endedListener := True, recording := True, progressInterval := True\<rparr>"

text \<open>\<^verbatim>\<open>!x\<close> for a number: true for 0 and NaN.\<close>

fun jsNot :: "jsnum \<Rightarrow> bool" where
  "jsNot (Fin a) = (a = 0)"
| "jsNot NaN = True"
| "jsNot _ = False"

text \<open>
  The callback of \<^verbatim>\<open>setInterval(..., 500)\<close>:
  \<^verbatim>\<open>if (!video.duration) return;\<close>
  \<^verbatim>\<open>const progress = Math.min(100, Math.floor((video.currentTime / video.duration) * 100));\<close>
  then the progress is stored, and the timer is cleared once \<^verbatim>\<open>video.ended\<close> holds.
\<close>

definition progressTick :: "app \<Rightarrow> app" where
  "progressTick a =
     (if \<not> progressInterval a then a
      else if jsNot (duration (vid a)) then a
      else
        (let progress = jmin (Fin 100)
               (jfloor (jmul (jdiv (Fin (currentTime (vid a))) (duration (vid a))) (Fin 100)))
         in a\<lparr>exportProgress := progress,
              progressInterval := \<not> ended (vid a)\<rparr>))"

text \<open>
  \<^verbatim>\<open>recorder.onstop\<close>: the file is offered for download and the export state is reset.
\<close>

definition recorderStopped :: "app \<Rightarrow> app" where
  "recorderStopped a =
     a\<lparr>recording := False, downloads := Suc (downloads a),
       isExporting := False, exportProgress := Fin 0\<rparr>"

text \<open>
  The \<^verbatim>\<open>ended\<close> event of the video: the listener \<^verbatim>\<open>onEnded\<close>, if it is installed,
  stops the recorder and removes itself.
\<close>

definition fireEnded :: "app \<Rightarrow> app" where
  "fireEnded a = (if endedListener a then (recorderStopped a)\<lparr>endedListener := False\<rparr> else a)"

text \<open>
  Playback advancing by \<open>dt\<close> seconds of media time, as the web platform standard describes it
  for a media element: when the playback position reaches the end of the media, an
  element with the \<^verbatim>\<open>loop\<close> attribute seeks back to the start and goes on playing,
  with no \<^verbatim>\<open>ended\<close> event; an element without it stops there, \<^verbatim>\<open>ended\<close> becomes
  true and the event is fired.
\<close>

definition playback :: "real \<Rightarrow> app \<Rightarrow> app" where
  "playback dt a =
     (let v = vid a in
      if paused v \<or> ended v then a
      else
        (case duration v of
           Fin d \<Rightarrow>
             (if currentTime v + dt < d then a\<lparr>vid := v\<lparr>currentTime := currentTime v + dt\<rparr>\<rparr>
              else if loop v then a\<lparr>vid := v\<lparr>currentTime := 0\<rparr>\<rparr>
              else fireEnded (a\<lparr>vid := v\<lparr>currentTime := d, ended := True, paused := True\<rparr>\<rparr>))
         | _ \<Rightarrow> a\<lparr>vid := v\<lparr>currentTime := currentTime v + dt\<rparr>\<rparr>))"

datatype export_event = Tick | Play real

fun exportStep :: "app \<Rightarrow> export_event \<Rightarrow> app" where
  "exportStep a Tick = progressTick a"
| "exportStep a (Play dt) = playback dt a"

text \<open>A run of the export: the state after a sequence of events.\<close>

definition exportRun :: "app \<Rightarrow> export_event list \<Rightarrow> app" where
  "exportRun a es = foldl exportStep a es"

text \<open>Half a second of playback followed by one timer callback, \<open>n\<close> times.\<close>

fun halfSeconds :: "nat \<Rightarrow> export_event list" where
  "halfSeconds 0 = []"
| "halfSeconds (Suc n) = Play 0.5 # Tick # halfSeconds n"

section \<open>Sample inputs\<close>

text \<open>A source that is mid-grey at every size, and a random source that always returns 0.\<close>

definition graySource :: source where
  "graySource w h x y = \<lparr>chR = 128, chG = 128, chB = 128, chA = 255\<rparr>"

definition zeroRandom :: "nat \<Rightarrow> real" where
  "zeroRandom k = 0"

definition halfRandom :: "nat \<Rightarrow> real" where
  "halfRandom k = 1 / 2"

text \<open>
  The settings of the specification's scenario: pixel size 4, THRESHOLD mode, threshold
  128, contrast 0, brightness 0, black and white.
\<close>

definition scenarioSettings :: FilterSettings where
  "scenarioSettings = DEFAULT_SETTINGS\<lparr>mode := THRESHOLD, contrast := Fin 0\<rparr>"

section \<open>Observing results\<close>

text \<open>
  The size of the working canvas and of the output canvas when the call completes, and
  a pixel of the output canvas; \<open>None\<close> when the call throws (or, for the working
  canvas, returns early).
\<close>

definition workingSize :: "js_exception + canvas option \<Rightarrow> (nat \<times> nat) option" where
  "workingSize r =
     (case r of Inl e \<Rightarrow> None | Inr None \<Rightarrow> None | Inr (Some c) \<Rightarrow> Some (cwidth c, cheight c))"

definition outputSize :: "js_exception + canvas \<Rightarrow> (nat \<times> nat) option" where
  "outputSize r = (case r of Inl e \<Rightarrow> None | Inr c \<Rightarrow> Some (cwidth c, cheight c))"

definition outputPixel :: "js_exception + canvas \<Rightarrow> nat \<Rightarrow> nat \<Rightarrow> rgba option" where
  "outputPixel r x y =
     (case r of
        Inl e \<Rightarrow> None
      | Inr c \<Rightarrow> if x < cwidth c \<and> y < cheight c then Some (cpix c x y) else None)"

text \<open>A configuration with its two palette colours exchanged.\<close>

definition swapColors :: "FilterSettings \<Rightarrow> FilterSettings" where
  "swapColors s = s\<lparr>colorA := colorB s, colorB := colorA s\<rparr>"

text \<open>The contrast is a number within the bounds of the contrast range input.\<close>

definition contrastInRange :: "FilterSettings \<Rightarrow> bool" where
  "contrastInRange s = (case contrast s of Fin c \<Rightarrow> - 100 \<le> c \<and> c \<le> 100 | _ \<Rightarrow> False)"

text \<open>
  An export in progress on a looping video: the flag is set, the recorder runs, nothing
  has been offered for download, and playback has not ended.
\<close>

definition looping :: "app \<Rightarrow> bool" where
  "looping a =
     (loop (vid a) \<and> \<not> ended (vid a) \<and> isExporting a \<and> recording a \<and> downloads a = 0)"

text \<open>The export progress after each timer callback of a run, in order.\<close>

fun progressSeq :: "app \<Rightarrow> export_event list \<Rightarrow> jsnum list" where
  "progressSeq a [] = []"
| "progressSeq a (Tick # es) = exportProgress (progressTick a) # progressSeq (progressTick a) es"
| "progressSeq a (Play dt # es) = progressSeq (playback dt a) es"

section \<open>Basic facts\<close>

lemma mode_names_distinct:
  "THRESHOLD \<noteq> BAYER" "THRESHOLD \<noteq> HALFTONE" "THRESHOLD \<noteq> STOCHASTIC"
  "BAYER \<noteq> THRESHOLD" "HALFTONE \<noteq> THRESHOLD" "STOCHASTIC \<noteq> THRESHOLD"
  "BAYER \<noteq> HALFTONE" "BAYER \<noteq> STOCHASTIC" "HALFTONE \<noteq> STOCHASTIC"
  "HALFTONE \<noteq> BAYER" "STOCHASTIC \<noteq> BAYER" "STOCHASTIC \<noteq> HALFTONE"
  by (simp_all add: BAYER_def THRESHOLD_def HALFTONE_def STOCHASTIC_def)

lemma default_fields:
  "pixelSize DEFAULT_SETTINGS = Fin 4" "contrast DEFAULT_SETTINGS = Fin 40"
  "brightness DEFAULT_SETTINGS = Fin 0" "threshold DEFAULT_SETTINGS = Fin 128"
  "mode DEFAULT_SETTINGS = BAYER" "invert DEFAULT_SETTINGS = False"
  "dotScale DEFAULT_SETTINGS = Fin 1.2"
  "colorA DEFAULT_SETTINGS = ''#000000''" "colorB DEFAULT_SETTINGS = ''#FFFFFF''"
  by (simp_all add: DEFAULT_SETTINGS_def)


lemma jsTrunc_of_int [simp]: "jsTrunc (of_int a) = a"
  by (simp add: jsTrunc_def)

lemma jsTrunc_of_nat [simp]: "jsTrunc (real n) = int n"
  by (simp add: jsTrunc_def)

lemma hex_black: "hexToRgb ''#000000'' = \<lparr>rgb_r = Fin 0, rgb_g = Fin 0, rgb_b = Fin 0\<rparr>"
  by (simp add: hexToRgb_def slice_def parseInt16_def isWhiteSpace_def hexDigit_def)

lemma hex_white: "hexToRgb ''#FFFFFF'' = \<lparr>rgb_r = Fin 255, rgb_g = Fin 255, rgb_b = Fin 255\<rparr>"
  by (simp add: hexToRgb_def slice_def parseInt16_def isWhiteSpace_def hexDigit_def)

lemma palette_black: "palettePixel ''#000000'' = \<lparr>chR = 0, chG = 0, chB = 0, chA = 255\<rparr>"
  by (simp add: palettePixel_def hex_black)

lemma palette_white: "palettePixel ''#FFFFFF'' = \<lparr>chR = 255, chG = 255, chB = 255, chA = 255\<rparr>"
  by (simp add: palettePixel_def hex_white)

section \<open>The tone adjustment\<close>

lemma contrastFactor_finite:
  "c \<noteq> 259 \<Longrightarrow> contrastFactor (Fin c) = Fin (spec_factor c)"
  by (simp add: contrastFactor_def spec_factor_def jsub_def)





section \<open>The dither decision\<close>





section \<open>The loop over the buffer\<close>

lemma jmod4_of_nonneg_int:
  assumes "0 \<le> m"
  shows "jmod (Fin (of_int m)) (Fin 4) = Fin (of_int (m mod 4))"
proof -
  have f: "\<lfloor>(of_int m :: real) / 4\<rfloor> = m div 4"
    using floor_divide_of_int_eq [of m 4, where ?'a = real] by simp
  have "m mod 4 = m - 4 * (m div 4)"
    by (simp add: minus_mult_div_eq_mod)
  then have "(of_int (m mod 4) :: real) = of_int m - 4 * of_int (m div 4)"
    by simp
  then show ?thesis using assms f by simp
qed

lemma bayerAt_row_ok:
  assumes "0 \<le> m"
  shows "\<exists>v. bayerAt (jmod (Fin (of_int m)) (Fin 4)) xi = Inr v"
proof -
  have "0 \<le> m mod 4" "m mod 4 < 4" by simp_all
  then have "nat (m mod 4) < 4" by linarith
  then have "arrayIndex BAYER_4X4 (Fin (of_int (m mod 4))) \<noteq> None"
    by (simp add: BAYER_4X4_def)
  then obtain row where "arrayIndex BAYER_4X4 (Fin (of_int (m mod 4))) = Some row"
    by blast
  then show ?thesis
    unfolding bayerAt_def jmod4_of_nonneg_int [OF assms] by simp
qed

text \<open>In a row with a non-negative index the dither decision throws nothing.\<close>

lemma ditherOutput_no_exception:
  assumes "0 \<le> m"
  shows "ditherOutput s gray x (Fin (of_int m)) u = Inr 0
       \<or> ditherOutput s gray x (Fin (of_int m)) u = Inr 1"
proof -
  obtain v where v: "bayerAt (jmod (Fin (of_int m)) (Fin 4)) (jmod x (Fin 4)) = Inr v"
    using bayerAt_row_ok [OF assms] by blast
  show ?thesis
    unfolding ditherOutput_def using v by (simp del: jmod.simps add: Let_def)
qed

lemma ditherOutput_bit:
  "ditherOutput s gray x y u = Inr b \<Longrightarrow> b = 0 \<or> b = 1"
  by (auto simp: ditherOutput_def Let_def split: sum.splits if_splits)

lemma row_of_pixel:
  assumes "0 < a"
  shows "\<exists>m\<ge>0. jfloor (jdiv (Fin (real k)) (Fin a)) = Fin (of_int m)"
proof -
  have "0 \<le> real k / a" using assms by simp
  then have "0 \<le> \<lfloor>real k / a\<rfloor>" by simp
  then show ?thesis using assms by auto
qed

text \<open>With a positive row length every pixel is replaced by one of the two palette pixels.\<close>

lemma processPixel_palette:
  assumes "0 < a"
  shows "processPixel s rgbA rgbB cf (Fin a) rng k p = Inr (paletteWrite rgbA rgbB 0)
       \<or> processPixel s rgbA rgbB cf (Fin a) rng k p = Inr (paletteWrite rgbA rgbB 1)"
proof -
  obtain m where m: "0 \<le> m" "jfloor (jdiv (Fin (real k)) (Fin a)) = Fin (of_int m)"
    using row_of_pixel [OF assms] by blast
  let ?g = "pixelGray cf (brightness s) p"
  let ?x = "jmod (Fin (real k)) (Fin a)"
  have "ditherOutput s ?g ?x (Fin (of_int m)) (rng k) = Inr 0
      \<or> ditherOutput s ?g ?x (Fin (of_int m)) (rng k) = Inr 1"
    by (rule ditherOutput_no_exception [OF m(1)])
  then show ?thesis
    unfolding processPixel_def Let_def m(2) pixelBit_def
    by (elim disjE) (simp_all add: applyInvert_def del: jmod.simps)
qed

lemma filterLoop_nth:
  assumes "0 < a"
  shows "\<exists>ps'. filterLoop s rgbA rgbB cf (Fin a) rng k ps = Inr ps'
           \<and> length ps' = length ps
           \<and> (\<forall>j<length ps.
                 processPixel s rgbA rgbB cf (Fin a) rng (k + j) (ps ! j) = Inr (ps' ! j))"
proof (induction ps arbitrary: k)
  case Nil
  show ?case by simp
next
  case (Cons p ps)
  obtain ps' where ps': "filterLoop s rgbA rgbB cf (Fin a) rng (Suc k) ps = Inr ps'"
      "length ps' = length ps"
      "\<forall>j<length ps. processPixel s rgbA rgbB cf (Fin a) rng (Suc k + j) (ps ! j) = Inr (ps' ! j)"
    using Cons.IH [of "Suc k"] by blast
  obtain p' where p': "processPixel s rgbA rgbB cf (Fin a) rng k p = Inr p'"
    using processPixel_palette [OF assms, of s rgbA rgbB cf rng k p] by blast
  have "processPixel s rgbA rgbB cf (Fin a) rng (k + j) ((p # ps) ! j) = Inr ((p' # ps') ! j)"
    if "j < length (p # ps)" for j
  proof (cases j)
    case 0
    then show ?thesis using p' by simp
  next
    case (Suc i)
    then show ?thesis using that ps'(3) by simp
  qed
  then show ?case using p' ps'(1,2) by simp
qed

section \<open>Rounding to binary64\<close>

text \<open>Rounding to an integer: the result lies between any two integers around the argument.\<close>

lemma rne_of_int: "roundHalfEven (of_int i) = i"
  by (simp add: roundHalfEven_def Let_def)

lemma rne_le:
  assumes "t \<le> of_int i"
  shows "roundHalfEven t \<le> i"
proof (cases "t = of_int i")
  case True
  then show ?thesis by (simp add: rne_of_int)
next
  case False
  then have "t < of_int i" using assms by simp
  then have "\<lfloor>t\<rfloor> < i" by (simp add: floor_less_iff)
  then show ?thesis by (auto simp: roundHalfEven_def Let_def)
qed

lemma rne_ge:
  assumes "of_int i \<le> t"
  shows "i \<le> roundHalfEven t"
proof -
  have "i \<le> \<lfloor>t\<rfloor>" using assms by (simp add: le_floor_iff)
  then show ?thesis by (auto simp: roundHalfEven_def Let_def)
qed

lemma rne_near:
  assumes "of_int i - 1 / 2 < t" and "t \<le> of_int i"
  shows "roundHalfEven t = i"
proof (cases "t = of_int i")
  case True
  then show ?thesis by (simp add: rne_of_int)
next
  case False
  then have lt: "t < of_int i" using assms by simp
  have f: "\<lfloor>t\<rfloor> = i - 1" using assms lt by (simp add: floor_eq_iff)
  have "1 / 2 < t - of_int \<lfloor>t\<rfloor>" using assms by (simp add: f)
  then show ?thesis by (simp add: roundHalfEven_def Let_def f)
qed

lemma rne_tie_even:
  assumes "t = of_int i - 1 / 2" and "even i"
  shows "roundHalfEven t = i"
proof -
  have f: "\<lfloor>t\<rfloor> = i - 1" using assms by (simp add: floor_eq_iff)
  have "t - of_int \<lfloor>t\<rfloor> = 1 / 2" unfolding f using assms(1) by simp
  then show ?thesis using assms(2) by (simp add: roundHalfEven_def Let_def f)
qed

text \<open>Every positive real lies in one binade, and the exponent search finds it.\<close>

lemma binade:
  assumes "0 < (x::real)"
  shows "\<exists>e. 2 powi e \<le> x \<and> x < 2 powi (e + 1)"
proof -
  define e where "e = \<lfloor>log 2 x\<rfloor>"
  have "2 powr (of_int e) \<le> x \<and> x < 2 powr (of_int e + 1)"
    using floor_log_eq_powr_iff [of x 2 e] assms by (simp add: e_def)
  moreover have "2 powr (of_int e) = (2::real) powi e"
    by (rule powr_real_of_int') simp_all
  moreover have "2 powr (of_int e + 1) = (2::real) powi (e + 1)"
    using powr_real_of_int' [of 2 "e + 1"] by simp
  ultimately show ?thesis by auto
qed

lemma expUp_eq:
  assumes "2 ^ k \<le> a" and "a < 2 ^ Suc k" and "k \<le> n"
  shows "expUp n a = int k"
  using assms
proof (induction n arbitrary: a k)
  case 0
  then show ?case by simp
next
  case (Suc n)
  show ?case
  proof (cases k)
    case 0
    then show ?thesis using Suc.prems by simp
  next
    case (Suc j)
    have "(1::real) \<le> 2 ^ j" by simp
    moreover have "2 * 2 ^ j \<le> a" using Suc.prems(1) Suc by simp
    ultimately have "2 \<le> a" by linarith
    have "expUp n (a / 2) = int j"
      using Suc.prems Suc by (intro Suc.IH) simp_all
    then show ?thesis using Suc \<open>2 \<le> a\<close> by simp
  qed
qed

lemma expDown_eq:
  assumes "1 / 2 ^ k \<le> a" and "a < 2 / 2 ^ k" and "k \<le> n" and "0 < k"
  shows "expDown n a = - int k"
  using assms
proof (induction n arbitrary: a k)
  case 0
  then show ?case by simp
next
  case (Suc n)
  have a1: "a < 1"
  proof -
    have "(2::real) \<le> 2 ^ k" using Suc.prems(4) by (cases k) simp_all
    then have "2 / 2 ^ k \<le> (1::real)" by simp
    then show ?thesis using Suc.prems(2) by linarith
  qed
  show ?case
  proof (cases "k = 1")
    case True
    then have "1 \<le> 2 * a" using Suc.prems(1) by simp
    then have "expDown n (2 * a) = 0" by (cases n) simp_all
    then show ?thesis using a1 True by simp
  next
    case False
    then obtain j where j: "k = Suc j" "0 < j" using Suc.prems(4) by (cases k) auto
    have "expDown n (2 * a) = - int j"
      using Suc.prems j by (intro Suc.IH) (simp_all add: field_simps)
    then show ?thesis using a1 j by simp
  qed
qed

lemma exponent_eq:
  assumes "2 powi e \<le> a" and "a < 2 powi (e + 1)" and "- 1022 \<le> e" and "e \<le> 1023"
  shows "exponent a = e"
proof (cases "0 \<le> e")
  case True
  define k where "k = nat e"
  have e: "e = int k" using True by (simp add: k_def)
  have b: "2 ^ k \<le> a" "a < 2 ^ Suc k"
    using assms(1,2) unfolding e by (simp_all add: power_int_add)
  have "(1::real) \<le> 2 ^ k" by simp
  then have "1 \<le> a" using b(1) by linarith
  moreover have "expUp 1024 a = int k"
    using b assms(4) e by (intro expUp_eq) simp_all
  ultimately show ?thesis by (simp add: exponent_def e)
next
  case False
  define k where "k = nat (- e)"
  have e: "e = - int k" and k: "0 < k" "k \<le> 1022" using False assms(3) by (simp_all add: k_def)
  have p: "(2::real) powi e = 1 / 2 ^ k"
    unfolding e by (simp add: power_int_minus_divide)
  have q: "(2::real) powi (e + 1) = 2 / 2 ^ k"
  proof -
    have "(2::real) powi (e + 1) = 2 powi e * 2" by (simp add: power_int_add)
    then show ?thesis by (simp add: p)
  qed
  have b: "1 / 2 ^ k \<le> a" "a < 2 / 2 ^ k" using assms(1,2) by (simp_all add: p q)
  have "(2::real) \<le> 2 ^ k" using k(1) by (cases k) simp_all
  then have "2 / 2 ^ k \<le> (1::real)" by simp
  then have "a < 1" using b(2) by linarith
  moreover have "expDown 1022 a = - int k"
    using b k by (intro expDown_eq) simp_all
  ultimately show ?thesis by (simp add: exponent_def e)
qed

text \<open>
  In the normal range the rounded value is the magnitude rounded to a multiple of the
  unit of its binade.
\<close>

lemma binary64_normal:
  assumes "2 powi e \<le> x" and "x < 2 powi (e + 1)" and "- 1022 \<le> e" and "e \<le> 1022"
  shows "binary64 x = Fin (of_int (roundHalfEven (x / 2 powi (e - 52))) * 2 powi (e - 52))"
proof -
  have "(0::real) < 2 powi e" by simp
  then have x: "0 < x" using assms(1) by linarith
  have "exponent x = e"
    using assms by (intro exponent_eq) simp_all
  then show ?thesis using x assms(4) by (simp add: binary64_def Let_def)
qed

lemma binade_bounds:
  assumes "2 powi e \<le> (x::real)" and "x < 2 powi (e + 1)"
    and "2 powi a \<le> x" and "x \<le> 2 powi b"
  shows "a \<le> e" and "e \<le> b"
proof -
  show "a \<le> e"
  proof (rule ccontr)
    assume "\<not> a \<le> e"
    then have "e + 1 \<le> a" by simp
    then have "(2::real) powi (e + 1) \<le> 2 powi a" by (intro power_int_increasing) simp_all
    then show False using assms(2,3) by linarith
  qed
  show "e \<le> b"
  proof (rule ccontr)
    assume "\<not> e \<le> b"
    then have "b < e" by simp
    then have "(2::real) powi b < 2 powi e" by (intro power_int_strict_increasing) simp_all
    then show False using assms(1,4) by linarith
  qed
qed

text \<open>
  Rounding is monotone between numbers that binary64 represents: a real between two
  multiples of \<open>2 ^ -21\<close> that are at most \<open>2 ^ 31\<close> is rounded to a number
  between them.
\<close>

lemma binary64_bracket:
  assumes lo: "of_int L / 2 ^ 21 \<le> x" and hi: "x \<le> of_int H / 2 ^ 21"
    and L: "0 < L" and H: "H \<le> 2 ^ 52"
  shows "\<exists>y. binary64 x = Fin y \<and> of_int L / 2 ^ 21 \<le> y \<and> y \<le> of_int H / 2 ^ 21"
proof -
  have "(1::real) \<le> of_int L" using L by simp
  then have l21: "1 / 2 ^ 21 \<le> (of_int L :: real) / 2 ^ 21" by (simp add: divide_right_mono)
  have "(0::real) < 1 / 2 ^ 21" by simp
  then have x: "0 < x" using lo l21 by linarith
  have "(of_int H :: real) \<le> 2 ^ 52" using H by (metis of_int_le_iff of_int_numeral of_int_power)
  then have "(of_int H :: real) / 2 ^ 21 \<le> 2 ^ 52 / 2 ^ 21" by (intro divide_right_mono) simp_all
  then have h31: "(of_int H :: real) / 2 ^ 21 \<le> 2 ^ 31" by simp
  obtain e where e: "2 powi e \<le> x" "x < 2 powi (e + 1)" using binade [OF x] by blast
  have a: "(2::real) powi (- 21) \<le> x" using l21 lo by (simp add: power_int_minus_divide)
  have b: "x \<le> (2::real) powi 31" using h31 hi by simp
  have er: "- 21 \<le> e" "e \<le> 31" using binade_bounds [OF e a b] by simp_all
  define u :: real where "u = 2 powi (e - 52)"
  have u: "0 < u" by (simp add: u_def)
  define d where "d = nat (31 - e)"
  have "(2::real) ^ d * u = 2 powi (int d) * 2 powi (e - 52)" by (simp add: u_def)
  also have "\<dots> = 2 powi (int d + (e - 52))" by (simp add: power_int_add)
  also have "\<dots> = 2 powi (- 21)" using er by (simp add: d_def)
  finally have du: "(2::real) ^ d * u = 1 / 2 ^ 21" by (simp add: power_int_minus_divide)
  have m: "of_int (K * 2 ^ d) * u = (of_int K :: real) / 2 ^ 21" for K
  proof -
    have "of_int (K * 2 ^ d) * u = of_int K * (2 ^ d * u)" by simp
    then show ?thesis by (simp only: du) simp
  qed
  have bq: "binary64 x = Fin (of_int (roundHalfEven (x / u)) * u)"
    unfolding u_def using e er by (intro binary64_normal) simp_all
  have "x \<le> of_int (H * 2 ^ d) * u" using hi by (simp only: m)
  then have "x / u \<le> of_int (H * 2 ^ d)"
    using u by (simp only: pos_divide_le_eq)
  then have "roundHalfEven (x / u) \<le> H * 2 ^ d" by (rule rne_le)
  then have "of_int (roundHalfEven (x / u)) * u \<le> of_int (H * 2 ^ d) * u"
    using u by (simp only: mult_le_cancel_right_pos of_int_le_iff)
  then have up: "of_int (roundHalfEven (x / u)) * u \<le> of_int H / 2 ^ 21" by (simp only: m)
  have "of_int (L * 2 ^ d) * u \<le> x" using lo by (simp only: m)
  then have "of_int (L * 2 ^ d) \<le> x / u"
    using u by (simp only: pos_le_divide_eq)
  then have "L * 2 ^ d \<le> roundHalfEven (x / u)" by (rule rne_ge)
  then have "of_int (L * 2 ^ d) * u \<le> of_int (roundHalfEven (x / u)) * u"
    using u by (simp only: mult_le_cancel_right_pos of_int_le_iff)
  then have dn: "of_int L / 2 ^ 21 \<le> of_int (roundHalfEven (x / u)) * u" by (simp only: m)
  show ?thesis using bq up dn by blast
qed

text \<open>
  A real that lies below an integer \<open>q\<close> by at most \<open>q * 2 ^ -54\<close>, half a unit in
  the last place or less, is rounded up to \<open>q\<close> (a tie goes to \<open>q\<close>, whose
  significand is even then).
\<close>

lemma binary64_round_up:
  assumes q: "1 \<le> q" "q < 2 ^ 32"
    and lo: "of_int q * (1 - 1 / 2 ^ 54) \<le> x" and hi: "x \<le> of_int q"
  shows "binary64 x = Fin (of_int q)"
proof -
  have q1: "(1::real) \<le> of_int q" using q(1) by simp
  have q32: "(of_int q :: real) < 2 ^ 32"
    using q(2) by (metis of_int_less_iff of_int_numeral of_int_power)
  have "(1::real) * (1 - 1 / 2 ^ 54) \<le> of_int q * (1 - 1 / 2 ^ 54)"
    using q1 by (intro mult_right_mono) simp_all
  then have xh: "1 / 2 \<le> x" using lo by simp
  then have x0: "0 < x" by simp
  obtain e where e: "2 powi e \<le> x" "x < 2 powi (e + 1)" using binade [OF x0] by blast
  have a: "(2::real) powi (- 1) \<le> x" using xh by (simp add: power_int_minus_divide)
  have b: "x \<le> (2::real) powi 32" using hi q32 by simp
  have er: "- 1 \<le> e" "e \<le> 32" using binade_bounds [OF e a b] by simp_all
  define u :: real where "u = 2 powi (e - 52)"
  have u: "0 < u" by (simp add: u_def)
  have bq: "binary64 x = Fin (of_int (roundHalfEven (x / u)) * u)"
    unfolding u_def using e er by (intro binary64_normal) simp_all
  have u53: "2 ^ 53 * u = 2 powi (e + 1)"
  proof -
    have "2 ^ 53 * u = 2 powi 53 * 2 powi (e - 52)" by (simp add: u_def)
    also have "\<dots> = 2 powi (53 + (e - 52))" by (rule power_int_add [symmetric]) simp
    finally show ?thesis by (simp add: add.commute)
  qed
  have key: "roundHalfEven (x / u) = i"
    if i: "of_int i * u = of_int q" "(of_int i :: real) \<le> 2 ^ 53" "of_int i < (2::real) ^ 53 \<or> even i" for i
  proof -
    have "x \<le> of_int i * u" using hi by (simp only: i(1))
    then have le: "x / u \<le> of_int i" using u by (simp only: pos_divide_le_eq)
    have "of_int i * u * (1 - 1 / 2 ^ 54) \<le> x" using lo by (simp only: i(1))
    then have "of_int i * (1 - 1 / 2 ^ 54) * u \<le> x" by (simp only: mult.commute mult.left_commute mult.assoc)
    then have ge: "of_int i * (1 - 1 / 2 ^ 54) \<le> x / u" using u by (simp only: pos_le_divide_eq)
    have s: "of_int i * (1 - 1 / 2 ^ 54) = of_int i - (of_int i :: real) / 2 ^ 54"
      by (simp add: algebra_simps)
    show ?thesis
    proof (cases "(of_int i :: real) < 2 ^ 53")
      case True
      then have "(of_int i :: real) / 2 ^ 54 < 2 ^ 53 / 2 ^ 54" by (intro divide_strict_right_mono) simp_all
      then have "(of_int i :: real) / 2 ^ 54 < 1 / 2" by simp
      then have "of_int i - 1 / 2 < x / u" using ge s by linarith
      then show ?thesis using le by (rule rne_near)
    next
      case False
      then have i53: "(of_int i :: real) = 2 ^ 53" and ev: "even i" using i(2,3) by simp_all
      have "(of_int i :: real) / 2 ^ 54 = 1 / 2" by (simp add: i53)
      then have g: "of_int i - 1 / 2 \<le> x / u" using ge s by linarith
      show ?thesis
      proof (cases "x / u = of_int i - 1 / 2")
        case True
        then show ?thesis using ev by (rule rne_tie_even)
      next
        case False
        then have "of_int i - 1 / 2 < x / u" using g by simp
        then show ?thesis using le by (rule rne_near)
      qed
    qed
  qed
  show ?thesis
  proof (cases "of_int q < (2::real) powi (e + 1)")
    case True
    have e0: "0 \<le> e"
    proof (rule ccontr)
      assume "\<not> 0 \<le> e"
      then have "e + 1 \<le> 0" by simp
      then have "(2::real) powi (e + 1) \<le> 2 powi 0" by (intro power_int_increasing) simp_all
      then show False using True q1 by simp
    qed
    define i where "i = q * 2 ^ nat (52 - e)"
    have "(2::real) ^ nat (52 - e) * u = 2 powi (int (nat (52 - e))) * 2 powi (e - 52)"
      by (simp only: power_int_of_nat u_def)
    also have "\<dots> = 2 powi (int (nat (52 - e)) + (e - 52))"
      by (rule power_int_add [symmetric]) simp
    also have "\<dots> = 1" using er by simp
    finally have one: "(2::real) ^ nat (52 - e) * u = 1" .
    have "of_int i * u = of_int q * (2 ^ nat (52 - e) * u)" by (simp add: i_def)
    then have iu: "of_int i * u = of_int q" by (simp only: one mult_1_right)
    have "of_int i * u < 2 ^ 53 * u" using True by (simp only: iu u53)
    then have "(of_int i :: real) < 2 ^ 53" using u by (simp only: mult_less_cancel_right_pos)
    then have "roundHalfEven (x / u) = i" using iu by (intro key) simp_all
    then show ?thesis using bq iu by simp
  next
    case False
    define P :: int where "P = 2 ^ nat (e + 1)"
    have P: "(of_int P :: real) = 2 powi (e + 1)"
      using er by (simp add: P_def power_int_def)
    have "(of_int P :: real) \<le> of_int q" using False by (simp add: P)
    then have Pq: "P \<le> q" by (simp only: of_int_le_iff)
    have "(of_int q :: real) / 2 ^ 54 < 2 ^ 32 / 2 ^ 54" using q32 by (intro divide_strict_right_mono) simp_all
    then have "(of_int q :: real) / 2 ^ 54 < 1" by simp
    moreover have "of_int q - (of_int q :: real) / 2 ^ 54 \<le> x" using lo by (simp add: algebra_simps)
    ultimately have "(of_int q :: real) - of_int P < 1" using e(2) P by linarith
    then have "(of_int (q - P) :: real) < of_int 1" by simp
    then have "q - P < 1" by (simp only: of_int_less_iff)
    then have qP: "q = P" using Pq by simp
    have c53: "(of_int (2 ^ 53) :: real) = 2 ^ 53" by simp
    have iu: "of_int (2 ^ 53) * u = of_int q" by (simp only: c53 u53 qP P)
    have "roundHalfEven (x / u) = 2 ^ 53" using iu by (intro key) simp_all
    then show ?thesis using bq iu by simp
  qed
qed

text \<open>Rounding keeps zero, commutes with negation, and keeps a number non-negative.\<close>

lemma binary64_zero: "binary64 0 = Fin 0"
  by (simp add: binary64_def)

lemma binary64_minus:
  "binary64 (- x) = (case binary64 x of Fin y \<Rightarrow> Fin (- y) | PInf \<Rightarrow> NInf | NInf \<Rightarrow> PInf | NaN \<Rightarrow> NaN)"
proof (cases "x = 0")
  case True
  then show ?thesis by (simp add: binary64_zero)
next
  case False
  define u :: real where "u = 2 powi (exponent \<bar>x\<bar> - 52)"
  define m where "m = roundHalfEven (\<bar>x\<bar> / u)"
  define ov where "ov \<longleftrightarrow> 1023 < exponent \<bar>x\<bar> \<or> (exponent \<bar>x\<bar> = 1023 \<and> 2 ^ 53 \<le> m)"
  have p: "binary64 x = (if ov then (if 0 < x then PInf else NInf) else Fin (sgn x * (of_int m * u)))"
    using False unfolding binary64_def Let_def ov_def m_def u_def by (simp only: if_False)
  have a: "\<bar>- x\<bar> = \<bar>x\<bar>" by simp
  have "- x \<noteq> 0" using False by simp
  then have n: "binary64 (- x)
      = (if ov then (if 0 < - x then PInf else NInf) else Fin (sgn (- x) * (of_int m * u)))"
    unfolding binary64_def Let_def a ov_def m_def u_def by (simp only: if_False)
  show ?thesis unfolding p n using False by (cases "0 < x"; cases ov) (simp_all add: sgn_if)
qed



text \<open>
  The rounded reciprocal of an integer from 1 to 48: multiplied by the integer it lies
  between \<open>1 - 2 ^ -54\<close> and \<open>1 + 2 ^ -53\<close>. (For 49 the product is \<open>1 - 23 * 2 ^ -58\<close>, below that range.)
\<close>

lemma recip_1_12:
  "list_all (\<lambda>k. case binary64 (1 / real k) of
       Fin c \<Rightarrow> 1 - 1 / 2 ^ 54 \<le> real k * c \<and> real k * c \<le> 1 + 1 / 2 ^ 53 | _ \<Rightarrow> False) [1..<13]"
  by code_simp

lemma recip_13_24:
  "list_all (\<lambda>k. case binary64 (1 / real k) of
       Fin c \<Rightarrow> 1 - 1 / 2 ^ 54 \<le> real k * c \<and> real k * c \<le> 1 + 1 / 2 ^ 53 | _ \<Rightarrow> False) [13..<25]"
  by code_simp

lemma recip_25_36:
  "list_all (\<lambda>k. case binary64 (1 / real k) of
       Fin c \<Rightarrow> 1 - 1 / 2 ^ 54 \<le> real k * c \<and> real k * c \<le> 1 + 1 / 2 ^ 53 | _ \<Rightarrow> False) [25..<37]"
  by code_simp

lemma recip_37_48:
  "list_all (\<lambda>k. case binary64 (1 / real k) of
       Fin c \<Rightarrow> 1 - 1 / 2 ^ 54 \<le> real k * c \<and> real k * c \<le> 1 + 1 / 2 ^ 53 | _ \<Rightarrow> False) [37..<49]"
  by code_simp

lemma reciprocal_bounds:
  assumes "1 \<le> k" and "k \<le> 48"
  shows "\<exists>c. binary64 (1 / real k) = Fin c
           \<and> 1 - 1 / 2 ^ 54 \<le> real k * c \<and> real k * c \<le> 1 + 1 / 2 ^ 53"
proof -
  have "k \<in> set [1..<13] \<or> k \<in> set [13..<25] \<or> k \<in> set [25..<37] \<or> k \<in> set [37..<49]"
    using assms by (simp only: set_upt atLeastLessThan_iff) presburger
  then have "case binary64 (1 / real k) of
       Fin c \<Rightarrow> 1 - 1 / 2 ^ 54 \<le> real k * c \<and> real k * c \<le> 1 + 1 / 2 ^ 53 | _ \<Rightarrow> False"
    using recip_1_12 recip_13_24 recip_25_36 recip_37_48 unfolding list_all_iff by blast
  then show ?thesis by (cases "binary64 (1 / real k)") simp_all
qed

text \<open>
  Hence, for a natural number \<open>n < 2 ^ 31\<close> and an integer \<open>k\<close> from 1 to 48, the
  rounded product of \<open>n\<close> and the rounded reciprocal of \<open>k\<close> has the floor
  \<open>n div k\<close>.
\<close>

lemma working_quotient:
  assumes k: "1 \<le> k" "k \<le> 48" and n: "n < 2 ^ 31"
  shows "\<exists>c y. binary64 (1 / real k) = Fin c \<and> binary64 (real n * c) = Fin y
           \<and> \<lfloor>y\<rfloor> = int (n div k) \<and> (0 < n \<longrightarrow> 0 < y)"
proof -
  obtain c where c: "binary64 (1 / real k) = Fin c"
    and cl: "1 - 1 / 2 ^ 54 \<le> real k * c" and cu: "real k * c \<le> 1 + 1 / 2 ^ 53"
    using reciprocal_bounds [OF k] by blast
  define q where "q = n div k"
  define r where "r = n mod k"
  have nqr: "n = q * k + r" by (simp add: q_def r_def)
  have rk: "r < k" using k(1) by (simp add: r_def)
  define N where "N = real n"
  define K where "K = real k"
  define Q where "Q = real q"
  define R where "R = real r"
  have N: "N = K * Q + R" unfolding N_def K_def Q_def R_def by (subst nqr) simp
  have K: "1 \<le> K" "K \<le> 48" using k by (simp_all add: K_def)
  have R: "0 \<le> R" "R \<le> K - 1" using rk by (simp_all add: R_def K_def)
  have Q0: "0 \<le> Q" by (simp add: Q_def)
  have N0: "0 \<le> N" by (simp add: N_def)
  have "n < 2147483648" using n by simp
  then have N31: "N < 2147483648" by (simp add: N_def)
  have "Q * 1 \<le> Q * K" using K(1) Q0 by (intro mult_left_mono)
  then have QN: "Q \<le> N" using N R(1) by (simp add: mult.commute)
  define x where "x = N * c"
  define kc where "kc = K * c"
  have kcl: "1 - 1 / 18014398509481984 \<le> kc" using cl by (simp add: kc_def K_def)
  have kcu: "kc \<le> 1 + 1 / 9007199254740992" using cu by (simp add: kc_def K_def)
  have kx: "K * x = N * kc" by (simp add: x_def kc_def)
  have "N * (1 - 1 / 18014398509481984) \<le> N * kc" using kcl N0 by (intro mult_left_mono)
  then have lowK: "N - 1 / 8388608 \<le> K * x" using N31 by (simp add: kx algebra_simps)
  have "N * kc \<le> N * (1 + 1 / 9007199254740992)" using kcu N0 by (intro mult_left_mono)
  then have upK: "K * x \<le> N + 1 / 4194304" using N31 by (simp add: kx algebra_simps)
  have bc: "binary64 (real n * c) = binary64 x" by (simp add: x_def N_def)
  have "int q < 2147483648" using QN N31 by (simp add: Q_def)
  then have q31: "int q \<le> 2147483647" by simp
  show ?thesis
  proof (cases "r = 0")
    case True
    then have NQ: "N = K * Q" using N by (simp add: R_def)
    have xQ: "x = Q * kc" by (simp add: x_def kc_def NQ)
    show ?thesis
    proof (cases "q = 0")
      case True
      then have "n = 0" using nqr \<open>r = 0\<close> by simp
      then show ?thesis using c by (simp add: binary64_zero)
    next
      case False
      then have q1: "1 \<le> int q" by simp
      have "Q * (1 - 1 / 18014398509481984) \<le> Q * kc" using kcl Q0 by (intro mult_left_mono)
      then have lo: "of_int (int q) * (1 - 1 / 2 ^ 54) \<le> x" by (simp add: xQ Q_def)
      have "Q * kc \<le> Q * (1 + 1 / 9007199254740992)" using kcu Q0 by (intro mult_left_mono)
      then have hi: "x \<le> Q + 1 / 2" using QN N31 by (simp add: xQ algebra_simps)
      have "\<exists>y. binary64 x = Fin y \<and> Q \<le> y \<and> y \<le> Q + 1 / 2"
      proof (cases "x \<le> Q")
        case True
        have "binary64 x = Fin (of_int (int q))"
          using q1 q31 lo True by (intro binary64_round_up) (simp_all add: Q_def)
        then show ?thesis by (simp add: Q_def)
      next
        case False
        have a: "(of_int (int q * 2 ^ 21) :: real) / 2 ^ 21 = Q" by (simp add: Q_def)
        have b: "(of_int (int q * 2 ^ 21 + 2 ^ 20) :: real) / 2 ^ 21 = Q + 1 / 2"
          by (simp add: Q_def field_simps)
        have "\<exists>y. binary64 x = Fin y \<and> of_int (int q * 2 ^ 21) / 2 ^ 21 \<le> y
                \<and> y \<le> of_int (int q * 2 ^ 21 + 2 ^ 20) / 2 ^ 21"
          using False hi q1 q31 by (intro binary64_bracket) (simp_all only: a b, simp_all)
        then show ?thesis by (simp only: a b)
      qed
      then obtain y where y: "binary64 x = Fin y" "Q \<le> y" "y \<le> Q + 1 / 2" by blast
      have "\<lfloor>y\<rfloor> = int q" using y(2,3) by (simp add: floor_eq_iff Q_def)
      moreover have "0 < y" using y(2) q1 by (simp add: Q_def)
      ultimately show ?thesis using c y(1) bc by (simp add: q_def)
    qed
  next
    case False
    then have R1: "1 \<le> R" by (simp add: R_def)
    have "K * (Q + 1 / 2097152) \<le> K * x"
      using lowK N R1 K by (simp add: algebra_simps)
    then have lo: "Q + 1 / 2097152 \<le> x" using K(1) by simp
    have "K * x \<le> K * (Q + 1 - 1 / 2097152)"
      using upK N R K by (simp add: algebra_simps)
    then have hi: "x \<le> Q + 1 - 1 / 2097152" using K(1) by simp
    have a: "(of_int (int q * 2 ^ 21 + 1) :: real) / 2 ^ 21 = Q + 1 / 2097152"
      by (simp add: Q_def field_simps)
    have b: "(of_int ((int q + 1) * 2 ^ 21 - 1) :: real) / 2 ^ 21 = Q + 1 - 1 / 2097152"
      by (simp add: Q_def field_simps)
    have "\<exists>y. binary64 x = Fin y \<and> of_int (int q * 2 ^ 21 + 1) / 2 ^ 21 \<le> y
                \<and> y \<le> of_int ((int q + 1) * 2 ^ 21 - 1) / 2 ^ 21"
      using lo hi q31 by (intro binary64_bracket) (simp_all only: a b, simp_all)
    then obtain y where y: "binary64 x = Fin y" "Q + 1 / 2097152 \<le> y" "y \<le> Q + 1 - 1 / 2097152"
      unfolding a b by blast
    have "\<lfloor>y\<rfloor> = int q" using y(2,3) by (simp add: floor_eq_iff Q_def)
    moreover have "0 < y" using y(2) Q0 by simp
    ultimately show ?thesis using c y(1) bc by (simp add: q_def)
  qed
qed

section \<open>The size of the working buffer\<close>

text \<open>
  For an integer pixel size from 1 to 48 and a source dimension below \<open>2 ^ 31\<close> the
  rounding does not show: the floored product is the integer quotient.
\<close>

lemma working_dim_integer:
  assumes "1 \<le> k" and "k \<le> 48" and "n < 2 ^ 31"
  shows "jfloor (jround (jmul (Fin (real n)) (jround (jdiv (Fin 1) (Fin (real k))))))
           = Fin (of_int (int (n div k)))"
proof -
  obtain c y where "binary64 (1 / real k) = Fin c" "binary64 (real n * c) = Fin y"
      "\<lfloor>y\<rfloor> = int (n div k)"
    using working_quotient [OF assms] by blast
  then show ?thesis using assms(1) by simp
qed

text \<open>With the negated pixel size the working size is negative (zero for a zero dimension).\<close>

lemma working_dim_negative:
  assumes "1 \<le> k" and "k \<le> 48" and "n < 2 ^ 31"
  shows "\<exists>a. jfloor (jround (jmul (Fin (real n)) (jround (jdiv (Fin 1) (Fin (- real k))))))
               = Fin (of_int a)
           \<and> (0 < n \<longrightarrow> a < 0) \<and> (n = 0 \<longrightarrow> a = 0)"
proof -
  obtain c y where c: "binary64 (1 / real k) = Fin c" and y: "binary64 (real n * c) = Fin y"
      and pos: "0 < n \<longrightarrow> 0 < y"
    using working_quotient [OF assms] by blast
  have "binary64 (- (1 / real k)) = Fin (- c)" by (simp add: binary64_minus c)
  then have s: "jround (jdiv (Fin 1) (Fin (- real k))) = Fin (- c)" using assms(1) by simp
  have "binary64 (- (real n * c)) = Fin (- y)" by (simp add: binary64_minus y)
  then have d: "jfloor (jround (jmul (Fin (real n)) (Fin (- c)))) = Fin (of_int \<lfloor>- y\<rfloor>)" by simp
  have "\<lfloor>- y\<rfloor> < 0" if "0 < n"
    using that pos by (simp add: floor_less_iff)
  moreover have "\<lfloor>- y\<rfloor> = 0" if "n = 0"
  proof -
    have "Fin y = Fin 0" using y that by (simp add: binary64_zero)
    then show ?thesis by simp
  qed
  ultimately show ?thesis unfolding s d by blast
qed


section \<open>The transform on a non-empty working buffer\<close>

lemma index_in_buffer:
  assumes "x < (A::nat)" and "y < B"
  shows "y * A + x < A * B"
proof -
  have "y * A + x < y * A + A" using assms(1) by simp
  also have "\<dots> = Suc y * A" by simp
  also have "\<dots> \<le> B * A" using assms(2) by (intro mult_le_mono1) simp
  finally show ?thesis by (simp add: mult.commute)
qed

lemma getImageData_positive:
  assumes "0 < a" and "0 < b"
  shows "getImageData c (Fin (of_int a)) (Fin (of_int b))
           = Inr \<lparr>iwidth = nat a, iheight = nat b,
                  idata = map (\<lambda>k. readPx c (int (k mod nat a)) (int (k div nat a)))
                            [0..<nat a * nat b]\<rparr>"
  using assms by (simp add: Let_def)

lemma nearest_less:
  assumes "i < d" and "0 < n"
  shows "nearest n d i < n"
proof -
  have "2 * i + 1 < 2 * d" using assms(1) by simp
  then have "(2 * i + 1) * n < 2 * d * n" using assms(2) by (rule mult_less_mono1)
  then have "(2 * i + 1) * n < n * (2 * d)" by (simp only: mult.commute)
  moreover have "0 < 2 * d" using assms(1) by simp
  ultimately have "(2 * i + 1) * n div (2 * d) < n"
    by (simp only: div_less_iff_less_mult)
  then show ?thesis by (simp only: nearest_def)
qed

lemma sized_output:
  "cwidth (setHeight (setWidth out (Fin (real wd))) (Fin (real ht))) = wd"
  "cheight (setHeight (setWidth out (Fin (real wd))) (Fin (real ht))) = ht"
  "has2d (setHeight (setWidth out (Fin (real wd))) (Fin (real ht))) = has2d out"
  by (simp_all add: setHeight_def setWidth_def)

text \<open>
  The working canvas, pixel by pixel, when the working size \<open>(a, b)\<close> that the call
  computes is positive in both axes: the canvas has that size, and its pixel \<open>(x, y)\<close>
  is the loop body applied to the sample \<open>(x, y)\<close> of the scaled source.
\<close>

lemma workingCanvas_positive:
  assumes wdim: "jfloor (jround (jmul (Fin (real wd)) (jround (jdiv (Fin 1) (pixelSize s)))))
                   = Fin (of_int a)"
    and hdim: "jfloor (jround (jmul (Fin (real ht)) (jround (jdiv (Fin 1) (pixelSize s)))))
                   = Fin (of_int b)"
    and a: "0 < a" and b: "0 < b"
  shows "\<exists>temp. workingCanvas rng src wd ht s = Inr (Some temp)
           \<and> cwidth temp = nat a \<and> cheight temp = nat b
           \<and> 0 < cwidth temp \<and> 0 < cheight temp
           \<and> (\<forall>x<cwidth temp. \<forall>y<cheight temp.
                 processPixel s (hexToRgb (colorA s)) (hexToRgb (colorB s))
                   (contrastFactor (contrast s)) (Fin (real (cwidth temp))) rng
                   (y * cwidth temp + x) (src (cwidth temp) (cheight temp) x y)
                 = Inr (cpix temp x y))"
proof -
  define tempCanvas where
    "tempCanvas = setHeight (setWidth createCanvas (Fin (of_int a))) (Fin (of_int b))"
  define drawn where "drawn = drawSource src (Fin (of_int a)) (Fin (of_int b)) tempCanvas"
  have tc: "cwidth tempCanvas = nat a" "cheight tempCanvas = nat b" "has2d tempCanvas"
    using a b by (simp_all add: tempCanvas_def setHeight_def setWidth_def createCanvas_def)
  have dr: "cwidth drawn = nat a" "cheight drawn = nat b"
    using a b tc by (simp_all add: drawn_def)
  have drpx: "readPx drawn (int x) (int y) = src (nat a) (nat b) x y"
    if "x < nat a" "y < nat b" for x y
  proof -
    have "int x < a" "int y < b" using that by linarith+
    then show ?thesis using that a b tc by (simp add: readPx_def drawn_def)
  qed
  define ps0 where
    "ps0 = map (\<lambda>k. readPx drawn (int (k mod nat a)) (int (k div nat a))) [0..<nat a * nat b]"
  have g: "getImageData drawn (Fin (of_int a)) (Fin (of_int b))
      = Inr \<lparr>iwidth = nat a, iheight = nat b, idata = ps0\<rparr>"
    unfolding ps0_def by (rule getImageData_positive [OF a b])
  have l0: "length ps0 = nat a * nat b" by (simp add: ps0_def)
  have apos: "0 < (of_int a :: real)" using a by simp
  obtain ps' where f: "filterLoop s (hexToRgb (colorA s)) (hexToRgb (colorB s))
        (contrastFactor (contrast s)) (Fin (of_int a)) rng 0 ps0 = Inr ps'"
      and l': "length ps' = length ps0"
      and nth: "\<forall>j<length ps0. processPixel s (hexToRgb (colorA s)) (hexToRgb (colorB s))
                  (contrastFactor (contrast s)) (Fin (of_int a)) rng (0 + j) (ps0 ! j)
                = Inr (ps' ! j)"
    using filterLoop_nth [OF apos] by blast
  define temp where "temp = putImageData drawn \<lparr>iwidth = nat a, iheight = nat b, idata = ps'\<rparr>"
  have res: "workingCanvas rng src wd ht s = Inr (Some temp)"
    unfolding workingCanvas_def Let_def wdim hdim
    unfolding tempCanvas_def [symmetric] drawn_def [symmetric] g
    by (simp add: tc f temp_def)
  have dims: "cwidth temp = nat a" "cheight temp = nat b"
    by (simp_all add: temp_def putImageData_def dr)
  have ra: "real (nat a) = of_int a" using a by simp
  have px: "processPixel s (hexToRgb (colorA s)) (hexToRgb (colorB s))
              (contrastFactor (contrast s)) (Fin (real (nat a))) rng (y * nat a + x)
              (src (nat a) (nat b) x y) = Inr (cpix temp x y)"
    if xy: "x < nat a" "y < nat b" for x y
  proof -
    have j: "y * nat a + x < length ps0"
      using index_in_buffer [OF xy] by (simp add: l0)
    have "ps0 ! (y * nat a + x) = readPx drawn (int x) (int y)"
      using j xy(1) by (simp add: ps0_def)
    then have s0: "ps0 ! (y * nat a + x) = src (nat a) (nat b) x y"
      using drpx [OF xy] by simp
    have t: "cpix temp x y = ps' ! (y * nat a + x)"
      using xy by (simp add: temp_def putImageData_def dr)
    from nth j have "processPixel s (hexToRgb (colorA s)) (hexToRgb (colorB s))
              (contrastFactor (contrast s)) (Fin (of_int a)) rng (y * nat a + x)
              (ps0 ! (y * nat a + x)) = Inr (ps' ! (y * nat a + x))"
      by simp
    then show ?thesis by (simp only: s0 t ra)
  qed
  show ?thesis
    using res dims a b px by (intro exI [of _ temp]) simp
qed

text \<open>
  The whole call in that case: it completes, the output canvas has the size of the
  source, and each of its pixels is the working pixel nearest to it.
\<close>

lemma apply_positive:
  assumes wdim: "jfloor (jround (jmul (Fin (real wd)) (jround (jdiv (Fin 1) (pixelSize s)))))
                   = Fin (of_int a)"
    and hdim: "jfloor (jround (jmul (Fin (real ht)) (jround (jdiv (Fin 1) (pixelSize s)))))
                   = Fin (of_int b)"
    and a: "0 < a" and b: "0 < b" and c: "has2d out"
  shows "\<exists>temp res. workingCanvas rng src wd ht s = Inr (Some temp)
           \<and> cwidth temp = nat a \<and> cheight temp = nat b
           \<and> 0 < cwidth temp \<and> 0 < cheight temp
           \<and> (\<forall>x<cwidth temp. \<forall>y<cheight temp.
                 processPixel s (hexToRgb (colorA s)) (hexToRgb (colorB s))
                   (contrastFactor (contrast s)) (Fin (real (cwidth temp))) rng
                   (y * cwidth temp + x) (src (cwidth temp) (cheight temp) x y)
                 = Inr (cpix temp x y))
           \<and> applyFiltersToCanvas rng src wd ht s out = Inr res
           \<and> cwidth res = wd \<and> cheight res = ht
           \<and> (\<forall>x<wd. \<forall>y<ht.
                 cpix res x y = cpix temp (nearest (cwidth temp) wd x) (nearest (cheight temp) ht y))"
proof -
  obtain temp where t: "workingCanvas rng src wd ht s = Inr (Some temp)"
      "cwidth temp = nat a" "cheight temp = nat b"
      "0 < cwidth temp" "0 < cheight temp"
      "\<forall>x<cwidth temp. \<forall>y<cheight temp.
                 processPixel s (hexToRgb (colorA s)) (hexToRgb (colorB s))
                   (contrastFactor (contrast s)) (Fin (real (cwidth temp))) rng
                   (y * cwidth temp + x) (src (cwidth temp) (cheight temp) x y)
                 = Inr (cpix temp x y)"
    using workingCanvas_positive [OF wdim hdim a b, of rng src] by blast
  define sized where "sized = setHeight (setWidth out (Fin (real wd))) (Fin (real ht))"
  have sz: "cwidth sized = wd" "cheight sized = ht" "has2d sized"
    using c by (simp_all add: sized_def sized_output)
  define res where "res = sized\<lparr>cpix := (\<lambda>x y.
                  if x < wd \<and> y < ht \<and> x < cwidth sized \<and> y < cheight sized
                  then cpix temp (nearest (cwidth temp) wd x) (nearest (cheight temp) ht y)
                  else cpix sized x y)\<rparr>"
  have d: "drawCanvas temp wd ht sized = Inr res"
    using t(4,5) by (simp add: drawCanvas_def res_def)
  have ap: "applyFiltersToCanvas rng src wd ht s out = Inr res"
    unfolding applyFiltersToCanvas_def t(1) Let_def sized_def [symmetric]
    using c sz d by simp
  have r: "cwidth res = wd" "cheight res = ht"
    "\<forall>x<wd. \<forall>y<ht. cpix res x y = cpix temp (nearest (cwidth temp) wd x) (nearest (cheight temp) ht y)"
    by (simp_all add: res_def sz)
  show ?thesis
    using t ap r by blast
qed

text \<open>
  The same for an integer pixel size from 1 to 48 that exceeds neither dimension of the
  source: the working size is the integer quotient in each axis.
\<close>

lemma apply_integer:
  assumes ps: "pixelSize s = Fin (real k)" and k: "1 \<le> k" "k \<le> 48"
    and w: "k \<le> wd" "wd < 2 ^ 31" and h: "k \<le> ht" "ht < 2 ^ 31" and c: "has2d out"
  shows "\<exists>temp res. workingCanvas rng src wd ht s = Inr (Some temp)
           \<and> cwidth temp = wd div k \<and> cheight temp = ht div k
           \<and> 0 < cwidth temp \<and> 0 < cheight temp
           \<and> (\<forall>x<cwidth temp. \<forall>y<cheight temp.
                 processPixel s (hexToRgb (colorA s)) (hexToRgb (colorB s))
                   (contrastFactor (contrast s)) (Fin (real (cwidth temp))) rng
                   (y * cwidth temp + x) (src (cwidth temp) (cheight temp) x y)
                 = Inr (cpix temp x y))
           \<and> applyFiltersToCanvas rng src wd ht s out = Inr res
           \<and> cwidth res = wd \<and> cheight res = ht
           \<and> (\<forall>x<wd. \<forall>y<ht.
                 cpix res x y = cpix temp (nearest (cwidth temp) wd x) (nearest (cheight temp) ht y))"
proof -
  have wdim: "jfloor (jround (jmul (Fin (real wd)) (jround (jdiv (Fin 1) (pixelSize s)))))
                = Fin (of_int (int (wd div k)))"
    unfolding ps by (rule working_dim_integer [OF k w(2)])
  have hdim: "jfloor (jround (jmul (Fin (real ht)) (jround (jdiv (Fin 1) (pixelSize s)))))
                = Fin (of_int (int (ht div k)))"
    unfolding ps by (rule working_dim_integer [OF k h(2)])
  have a: "0 < int (wd div k)" using k(1) w(1) by (simp add: div_greater_zero_iff)
  have b: "0 < int (ht div k)" using k(1) h(1) by (simp add: div_greater_zero_iff)
  from apply_positive [OF wdim hdim a b c, of rng src]
  show ?thesis by (simp only: nat_int)
qed

text \<open>
  The call when the working size is zero in an axis: \<^verbatim>\<open>getImageData\<close> throws an
  IndexSizeError.
\<close>

lemma apply_zero:
  assumes wdim: "jfloor (jround (jmul (Fin (real wd)) (jround (jdiv (Fin 1) (pixelSize s)))))
                   = Fin (of_int a)"
    and hdim: "jfloor (jround (jmul (Fin (real ht)) (jround (jdiv (Fin 1) (pixelSize s)))))
                   = Fin (of_int b)"
    and ab: "a = 0 \<or> b = 0"
  shows "workingCanvas rng src wd ht s = Inl IndexSizeError"
    and "has2d out \<Longrightarrow> applyFiltersToCanvas rng src wd ht s out = Inl IndexSizeError"
proof -
  have g: "getImageData c (Fin (of_int a)) (Fin (of_int b)) = Inl IndexSizeError" for c
    using ab by (auto simp: Let_def)
  show wc: "workingCanvas rng src wd ht s = Inl IndexSizeError"
    unfolding workingCanvas_def Let_def wdim hdim g
    by (simp add: setHeight_def setWidth_def createCanvas_def)
  show "applyFiltersToCanvas rng src wd ht s out = Inl IndexSizeError" if "has2d out"
    using that by (simp add: applyFiltersToCanvas_def wc)
qed

text \<open>
  The call when the working size is not finite in an axis: \<^verbatim>\<open>getImageData\<close> throws a
  TypeError.
\<close>

lemma apply_nonfinite:
  assumes wdim: "jfloor (jround (jmul (Fin (real wd)) (jround (jdiv (Fin 1) (pixelSize s))))) = w"
    and hdim: "jfloor (jround (jmul (Fin (real ht)) (jround (jdiv (Fin 1) (pixelSize s))))) = h"
    and nf: "(\<forall>a. w \<noteq> Fin a) \<or> (\<forall>b. h \<noteq> Fin b)"
  shows "workingCanvas rng src wd ht s = Inl TypeError"
    and "has2d out \<Longrightarrow> applyFiltersToCanvas rng src wd ht s out = Inl TypeError"
proof -
  have g: "getImageData c w h = Inl TypeError" for c
    using nf by (cases w; cases h) simp_all
  show wc: "workingCanvas rng src wd ht s = Inl TypeError"
    unfolding workingCanvas_def Let_def wdim hdim g
    by (simp add: setHeight_def setWidth_def createCanvas_def)
  show "applyFiltersToCanvas rng src wd ht s out = Inl TypeError" if "has2d out"
    using that by (simp add: applyFiltersToCanvas_def wc)
qed

text \<open>
  The call when the working size is negative in both axes and the mode is not BAYER:
  the working canvas takes its default size, the buffer read to the left of and above
  the origin is processed, and the call completes with an output of the source's size.
\<close>

lemma filterLoop_other_modes:
  assumes "mode s \<noteq> BAYER"
  shows "\<exists>ps'. filterLoop s rgbA rgbB cf w rng k ps = Inr ps'"
proof (induction ps arbitrary: k)
  case Nil
  show ?case by simp
next
  case (Cons p ps)
  obtain ps' where ps': "filterLoop s rgbA rgbB cf w rng (Suc k) ps = Inr ps'"
    using Cons.IH [of "Suc k"] by blast
  have "\<exists>b. ditherOutput s g x y u = Inr b" for g x y u
    using assms by (simp add: ditherOutput_def Let_def)
  then have "\<exists>p'. processPixel s rgbA rgbB cf w rng k p = Inr p'"
    unfolding processPixel_def pixelBit_def Let_def
    by (metis sum.case(2))
  then show ?case using ps' by auto
qed

lemma apply_negative:
  assumes wdim: "jfloor (jround (jmul (Fin (real wd)) (jround (jdiv (Fin 1) (pixelSize s)))))
                   = Fin (of_int a)"
    and hdim: "jfloor (jround (jmul (Fin (real ht)) (jround (jdiv (Fin 1) (pixelSize s)))))
                   = Fin (of_int b)"
    and a: "a < 0" and b: "b < 0" and m: "mode s \<noteq> BAYER" and c: "has2d out"
  shows "\<exists>temp res. workingCanvas rng src wd ht s = Inr (Some temp)
           \<and> cwidth temp = 300 \<and> cheight temp = 150
           \<and> applyFiltersToCanvas rng src wd ht s out = Inr res
           \<and> cwidth res = wd \<and> cheight res = ht"
proof -
  define tempCanvas where
    "tempCanvas = setHeight (setWidth createCanvas (Fin (of_int a))) (Fin (of_int b))"
  have tc: "cwidth tempCanvas = 300" "cheight tempCanvas = 150" "has2d tempCanvas"
    using a b by (simp_all add: tempCanvas_def setHeight_def setWidth_def createCanvas_def)
  have dr: "drawSource src (Fin (of_int a)) (Fin (of_int b)) tempCanvas = tempCanvas"
    using a by simp
  obtain img where g: "getImageData tempCanvas (Fin (of_int a)) (Fin (of_int b)) = Inr img"
    using a b by (simp add: Let_def)
  obtain ps' where f: "filterLoop s (hexToRgb (colorA s)) (hexToRgb (colorB s))
        (contrastFactor (contrast s)) (Fin (of_int a)) rng 0 (idata img) = Inr ps'"
    using filterLoop_other_modes [OF m] by blast
  define temp where "temp = putImageData tempCanvas (img\<lparr>idata := ps'\<rparr>)"
  have res: "workingCanvas rng src wd ht s = Inr (Some temp)"
    unfolding workingCanvas_def Let_def wdim hdim
    unfolding tempCanvas_def [symmetric] dr g
    by (simp add: tc f temp_def)
  have dims: "cwidth temp = 300" "cheight temp = 150"
    by (simp_all add: temp_def putImageData_def tc)
  define sized where "sized = setHeight (setWidth out (Fin (real wd))) (Fin (real ht))"
  have sz: "cwidth sized = wd" "cheight sized = ht" "has2d sized"
    using c by (simp_all add: sized_def sized_output)
  obtain r where d: "drawCanvas temp wd ht sized = Inr r" "cwidth r = wd" "cheight r = ht"
    using dims sz by (simp add: drawCanvas_def)
  have ap: "applyFiltersToCanvas rng src wd ht s out = Inr r"
    unfolding applyFiltersToCanvas_def res Let_def sized_def [symmetric]
    using c sz d by simp
  show ?thesis using res dims ap d(2,3) by blast
qed

section \<open>Buffer sizes\<close>

lemma reciprocal_of_49:
  "jround (jdiv (Fin 1) (Fin 49)) = Fin (5882252574524729 / 2 ^ 58)"
  "jround (jmul (Fin (real 49)) (Fin (5882252574524729 / 2 ^ 58))) = Fin (1 - 1 / 2 ^ 53)"
  "jfloor (Fin (1 - 1 / 2 ^ 53)) = Fin (of_int 0)"
  by code_simp+

text \<open>
  Claim C1, as stated, fails in two ways. With a source of 2 by 2 and the default pixel
  size 4 the working size floors to 0 by 0, \<^verbatim>\<open>getImageData\<close> throws an IndexSizeError,
  and the output canvas is never given the size of the source. And a pixel size that
  does not exceed the source can do the same: with the pixel size 49 the quotient
  \<open>1 / 49\<close> is rounded down, the product \<open>49 * (1 / 49)\<close> is the binary64 number
  \<open>1 - 2 ^ -53\<close>, and a source of 49 by 49 gets the working size 0 by 0 instead
  of 1 by 1.
\<close>

theorem small_source_counterexample:
  "pixelSize DEFAULT_SETTINGS = Fin 4
   \<and> processImage zeroRandom graySource 2 2 DEFAULT_SETTINGS = Inl IndexSizeError
   \<and> outputSize (processImage zeroRandom graySource 2 2 DEFAULT_SETTINGS) = None
   \<and> jround (jdiv (Fin 1) (Fin 49)) = Fin (5882252574524729 / 2 ^ 58)
   \<and> jround (jmul (Fin (real 49)) (Fin (5882252574524729 / 2 ^ 58))) = Fin (1 - 1 / 2 ^ 53)
   \<and> processImage zeroRandom graySource 49 49 (DEFAULT_SETTINGS\<lparr>pixelSize := Fin 49\<rparr>)
       = Inl IndexSizeError
   \<and> outputSize (processImage zeroRandom graySource 49 49 (DEFAULT_SETTINGS\<lparr>pixelSize := Fin 49\<rparr>))
       = None"
proof -
  have c: "has2d createCanvas" by (simp add: createCanvas_def)
  have d2: "jfloor (jround (jmul (Fin (real 2)) (jround (jdiv (Fin 1) (pixelSize DEFAULT_SETTINGS)))))
      = Fin (of_int (int (2 div 4)))"
    using working_dim_integer [of 4 2] by (simp add: default_fields)
  have a: "processImage zeroRandom graySource 2 2 DEFAULT_SETTINGS = Inl IndexSizeError"
    unfolding processImage_def by (rule apply_zero(2) [OF d2 d2 _ c]) simp
  let ?s = "DEFAULT_SETTINGS\<lparr>pixelSize := Fin 49\<rparr>"
  have f: "pixelSize ?s = Fin 49" by simp
  have d49: "jfloor (jround (jmul (Fin (real 49)) (jround (jdiv (Fin 1) (pixelSize ?s)))))
      = Fin (of_int 0)"
    unfolding f by (simp only: reciprocal_of_49)
  have b: "processImage zeroRandom graySource 49 49 ?s = Inl IndexSizeError"
    unfolding processImage_def by (rule apply_zero(2) [OF d49 d49 _ c]) simp
  show ?thesis
    by (simp only: a b reciprocal_of_49 default_fields outputSize_def sum.case simp_thms)
qed

text \<open>
  Claim C1, amended. For an integer pixel size from 1 to 48 that exceeds neither
  dimension of the source, source dimensions below \<open>2 ^ 31\<close> and an output canvas
  with a 2D context, the working buffer has the size
  \<open>(floor (sourceWidth / pixelSize), floor (sourceHeight / pixelSize))\<close> and the
  output canvas ends with exactly the size of the source. The pixel sizes of the
  control, 1 to 24, are among them; 49 is the first pixel size for which the rounding
  of \<^verbatim>\<open>sourceWidth * (1 / pixelSize)\<close> gives another working size.
\<close>

theorem output_keeps_source_size:
  assumes "pixelSize s = Fin (real k)" and "1 \<le> k" and "k \<le> 48"
    and "k \<le> wd" and "wd < 2 ^ 31" and "k \<le> ht" and "ht < 2 ^ 31" and "has2d out"
  shows "workingSize (workingCanvas rng src wd ht s) = Some (wd div k, ht div k)
       \<and> outputSize (applyFiltersToCanvas rng src wd ht s out) = Some (wd, ht)"
proof -
  from apply_integer [OF assms, of rng src]
  show ?thesis by (auto simp: workingSize_def outputSize_def)
qed

theorem output_keeps_source_size_witness:
  "pixelSize DEFAULT_SETTINGS = Fin (real 4) \<and> (1::nat) \<le> 4 \<and> (4::nat) \<le> 48
   \<and> (4::nat) \<le> 8 \<and> (8::nat) < 2 ^ 31 \<and> has2d createCanvas
   \<and> workingSize (workingCanvas zeroRandom graySource 8 8 DEFAULT_SETTINGS) = Some (2, 2)
   \<and> outputSize (applyFiltersToCanvas zeroRandom graySource 8 8 DEFAULT_SETTINGS createCanvas)
       = Some (8, 8)
   \<and> pixelSize (DEFAULT_SETTINGS\<lparr>pixelSize := Fin 3\<rparr>) = Fin (real 3)
   \<and> (1::nat) \<le> 3 \<and> (3::nat) \<le> 48 \<and> (3::nat) \<le> 10 \<and> (10::nat) < 2 ^ 31
   \<and> workingSize (workingCanvas zeroRandom graySource 10 10 (DEFAULT_SETTINGS\<lparr>pixelSize := Fin 3\<rparr>))
       = Some (3, 3)
   \<and> outputSize (applyFiltersToCanvas zeroRandom graySource 10 10
        (DEFAULT_SETTINGS\<lparr>pixelSize := Fin 3\<rparr>) createCanvas) = Some (10, 10)"
proof -
  have h: "pixelSize DEFAULT_SETTINGS = Fin (real 4)" "(1::nat) \<le> 4" "(4::nat) \<le> 48"
      "(4::nat) \<le> 8" "(8::nat) < 2 ^ 31" "has2d createCanvas"
    by (simp_all add: default_fields createCanvas_def)
  have g: "pixelSize (DEFAULT_SETTINGS\<lparr>pixelSize := Fin 3\<rparr>) = Fin (real 3)"
      "(1::nat) \<le> 3" "(3::nat) \<le> 48" "(3::nat) \<le> 10" "(10::nat) < 2 ^ 31"
    by simp_all
  from output_keeps_source_size [OF h(1) h(2) h(3) h(4) h(5) h(4) h(5) h(6), of zeroRandom graySource]
    output_keeps_source_size [OF g(1) g(2) g(3) g(4) g(5) g(4) g(5) h(6), of zeroRandom graySource]
  show ?thesis using h g by simp
qed

section \<open>Invalid dimensions\<close>

lemma half_pixel_dims:
  "jfloor (jround (jmul (Fin (real 8)) (jround (jdiv (Fin 1) (Fin 0.5))))) = Fin (of_int 16)"
  by code_simp

text \<open>
  Claim C2, as stated, fails: a pixel size below 1 is not rejected. With the pixel size
  0.5 and a source of 8 by 8 the working buffer is 16 by 16 and the call completes,
  with an output of 8 by 8. With the integer pixel size -4 in THRESHOLD mode the
  working size is negative, and the call on a source of 8 by 8 completes as well.
\<close>

theorem pixel_size_below_one_counterexample:
  "pixelSize (DEFAULT_SETTINGS\<lparr>pixelSize := Fin 0.5\<rparr>) = Fin 0.5
   \<and> workingSize (workingCanvas zeroRandom graySource 8 8 (DEFAULT_SETTINGS\<lparr>pixelSize := Fin 0.5\<rparr>))
       = Some (16, 16)
   \<and> outputSize (processImage zeroRandom graySource 8 8 (DEFAULT_SETTINGS\<lparr>pixelSize := Fin 0.5\<rparr>))
       = Some (8, 8)
   \<and> pixelSize (scenarioSettings\<lparr>pixelSize := Fin (- 4)\<rparr>) = Fin (- 4)
   \<and> outputSize (processImage zeroRandom graySource 8 8 (scenarioSettings\<lparr>pixelSize := Fin (- 4)\<rparr>))
       = Some (8, 8)"
proof -
  let ?s = "DEFAULT_SETTINGS\<lparr>pixelSize := Fin 0.5\<rparr>"
  let ?t = "scenarioSettings\<lparr>pixelSize := Fin (- 4)\<rparr>"
  have c: "has2d createCanvas" by (simp add: createCanvas_def)
  have f: "pixelSize ?s = Fin 0.5" by simp
  have d: "jfloor (jround (jmul (Fin (real 8)) (jround (jdiv (Fin 1) (pixelSize ?s)))))
      = Fin (of_int 16)"
    unfolding f by (rule half_pixel_dims)
  from apply_positive [OF d d _ _ c, of zeroRandom graySource]
  have p: "workingSize (workingCanvas zeroRandom graySource 8 8 ?s) = Some (16, 16)"
      "outputSize (processImage zeroRandom graySource 8 8 ?s) = Some (8, 8)"
    unfolding processImage_def by (auto simp: workingSize_def outputSize_def)
  obtain a where a: "jfloor (jround (jmul (Fin (real 8)) (jround (jdiv (Fin 1) (pixelSize ?t)))))
      = Fin (of_int a)" "a < 0"
    using working_dim_negative [of 4 8] by auto
  have m: "mode ?t \<noteq> BAYER"
    by (simp add: scenarioSettings_def mode_names_distinct)
  from apply_negative [OF a(1) a(1) a(2) a(2) m c, of zeroRandom graySource]
  have n: "outputSize (processImage zeroRandom graySource 8 8 ?t) = Some (8, 8)"
    unfolding processImage_def by (auto simp: outputSize_def)
  show ?thesis using p n by simp
qed

text \<open>
  Claim C2, amended. The engine checks nothing itself and has no error of its own; what
  fails, fails in \<^verbatim>\<open>getImageData\<close> on the working canvas. For an output canvas with a 2D
  context, source dimensions below \<open>2 ^ 31\<close> and an integer pixel size \<open>k\<close> from
  -48 to 48:

  \<^item> for \<open>k \<ge> 1\<close> the call fails exactly when \<open>sourceWidth < k\<close> or
    \<open>sourceHeight < k\<close> (a zero source dimension included), with the IndexSizeError
    for the working canvas of zero area, and otherwise it completes, with an output of
    the size of the source;

  \<^item> for \<open>k = 0\<close> it fails with the TypeError for a working size that is not finite;

  \<^item> a negative \<open>k\<close> is not rejected: the call fails with the IndexSizeError when a
    source dimension is zero, and with positive source dimensions and a mode other than
    BAYER it completes, with an output of the size of the source.
\<close>

theorem dimension_failures:
  assumes "pixelSize s = Fin (of_int k)" and "- 48 \<le> k" and "k \<le> 48"
    and "wd < 2 ^ 31" and "ht < 2 ^ 31" and "has2d out"
  shows "(1 \<le> k \<and> (int wd < k \<or> int ht < k)
            \<longrightarrow> applyFiltersToCanvas rng src wd ht s out = Inl IndexSizeError)
       \<and> (1 \<le> k \<and> k \<le> int wd \<and> k \<le> int ht
            \<longrightarrow> outputSize (applyFiltersToCanvas rng src wd ht s out) = Some (wd, ht))
       \<and> (k = 0 \<longrightarrow> applyFiltersToCanvas rng src wd ht s out = Inl TypeError)
       \<and> (k < 0 \<and> (wd = 0 \<or> ht = 0)
            \<longrightarrow> applyFiltersToCanvas rng src wd ht s out = Inl IndexSizeError)
       \<and> (k < 0 \<and> 0 < wd \<and> 0 < ht \<and> mode s \<noteq> BAYER
            \<longrightarrow> outputSize (applyFiltersToCanvas rng src wd ht s out) = Some (wd, ht))"
proof -
  consider (pos) "1 \<le> k" | (zero) "k = 0" | (neg) "k < 0" by linarith
  then show ?thesis
  proof cases
    case pos
    define j where "j = nat k"
    have j: "1 \<le> j" "j \<le> 48" "k = int j" using pos assms(3) by (simp_all add: j_def)
    have ps: "pixelSize s = Fin (real j)" using assms(1) j(3) by simp
    have wdim: "jfloor (jround (jmul (Fin (real wd)) (jround (jdiv (Fin 1) (pixelSize s)))))
                  = Fin (of_int (int (wd div j)))"
      unfolding ps by (rule working_dim_integer [OF j(1,2) assms(4)])
    have hdim: "jfloor (jround (jmul (Fin (real ht)) (jround (jdiv (Fin 1) (pixelSize s)))))
                  = Fin (of_int (int (ht div j)))"
      unfolding ps by (rule working_dim_integer [OF j(1,2) assms(5)])
    have z: "applyFiltersToCanvas rng src wd ht s out = Inl IndexSizeError"
      if "int wd < k \<or> int ht < k"
    proof -
      have "int (wd div j) = 0 \<or> int (ht div j) = 0" using that j(3) by auto
      then show ?thesis by (rule apply_zero(2) [OF wdim hdim _ assms(6)])
    qed
    have p: "outputSize (applyFiltersToCanvas rng src wd ht s out) = Some (wd, ht)"
      if "k \<le> int wd" "k \<le> int ht"
    proof -
      have "j \<le> wd" "j \<le> ht" using that j(3) by simp_all
      from apply_integer [OF ps j(1,2) this(1) assms(4) this(2) assms(5,6), of rng src]
      show ?thesis by (auto simp: outputSize_def)
    qed
    show ?thesis using pos z p by simp
  next
    case zero
    have sc: "jround (jdiv (Fin 1) (pixelSize s)) = PInf"
      using assms(1) zero by (simp add: signed_inf_def)
    have "\<forall>a. jfloor (jround (jmul (Fin (real wd)) (jround (jdiv (Fin 1) (pixelSize s))))) \<noteq> Fin a"
      unfolding sc by (simp add: signed_inf_def)
    then have "applyFiltersToCanvas rng src wd ht s out = Inl TypeError"
      by (intro apply_nonfinite(2) [OF refl refl _ assms(6)]) simp
    then show ?thesis using zero by simp
  next
    case neg
    define j where "j = nat (- k)"
    have j: "1 \<le> j" "j \<le> 48" "k = - int j" using neg assms(2) by (simp_all add: j_def)
    have ps: "pixelSize s = Fin (- real j)" using assms(1) j(3) by simp
    obtain a where a: "jfloor (jround (jmul (Fin (real wd)) (jround (jdiv (Fin 1) (pixelSize s)))))
                  = Fin (of_int a)" "0 < wd \<longrightarrow> a < 0" "wd = 0 \<longrightarrow> a = 0"
      unfolding ps using working_dim_negative [OF j(1,2) assms(4)] by blast
    obtain b where b: "jfloor (jround (jmul (Fin (real ht)) (jround (jdiv (Fin 1) (pixelSize s)))))
                  = Fin (of_int b)" "0 < ht \<longrightarrow> b < 0" "ht = 0 \<longrightarrow> b = 0"
      unfolding ps using working_dim_negative [OF j(1,2) assms(5)] by blast
    have z: "applyFiltersToCanvas rng src wd ht s out = Inl IndexSizeError"
      if "wd = 0 \<or> ht = 0"
    proof -
      have "a = 0 \<or> b = 0" using that a(3) b(3) by blast
      then show ?thesis by (rule apply_zero(2) [OF a(1) b(1) _ assms(6)])
    qed
    have p: "outputSize (applyFiltersToCanvas rng src wd ht s out) = Some (wd, ht)"
      if "0 < wd" "0 < ht" "mode s \<noteq> BAYER"
    proof -
      have "a < 0" "b < 0" using that a(2) b(2) by simp_all
      from apply_negative [OF a(1) b(1) this that(3) assms(6), of rng src]
      show ?thesis by (auto simp: outputSize_def)
    qed
    show ?thesis using neg z p by simp
  qed
qed

theorem dimension_failures_witness:
  "pixelSize DEFAULT_SETTINGS = Fin (of_int 4) \<and> - 48 \<le> (4::int) \<and> (4::int) \<le> 48
   \<and> (3::nat) < 2 ^ 31 \<and> (100::nat) < 2 ^ 31 \<and> has2d createCanvas
   \<and> applyFiltersToCanvas zeroRandom graySource 3 100 DEFAULT_SETTINGS createCanvas
       = Inl IndexSizeError
   \<and> outputSize (applyFiltersToCanvas zeroRandom graySource 100 100 DEFAULT_SETTINGS createCanvas)
       = Some (100, 100)
   \<and> pixelSize (DEFAULT_SETTINGS\<lparr>pixelSize := Fin 0\<rparr>) = Fin (of_int 0)
   \<and> applyFiltersToCanvas zeroRandom graySource 100 100 (DEFAULT_SETTINGS\<lparr>pixelSize := Fin 0\<rparr>)
        createCanvas = Inl TypeError
   \<and> pixelSize (scenarioSettings\<lparr>pixelSize := Fin (- 4)\<rparr>) = Fin (of_int (- 4))
   \<and> mode (scenarioSettings\<lparr>pixelSize := Fin (- 4)\<rparr>) \<noteq> BAYER
   \<and> applyFiltersToCanvas zeroRandom graySource 0 100 (scenarioSettings\<lparr>pixelSize := Fin (- 4)\<rparr>)
        createCanvas = Inl IndexSizeError
   \<and> outputSize (applyFiltersToCanvas zeroRandom graySource 100 100
        (scenarioSettings\<lparr>pixelSize := Fin (- 4)\<rparr>) createCanvas) = Some (100, 100)"
proof -
  have c: "has2d createCanvas" "(0::nat) < 2 ^ 31" "(3::nat) < 2 ^ 31" "(100::nat) < 2 ^ 31"
    by (simp_all add: createCanvas_def)
  have p: "pixelSize DEFAULT_SETTINGS = Fin (of_int 4)" "- 48 \<le> (4::int)" "(4::int) \<le> 48"
    by (simp_all add: default_fields)
  have z: "pixelSize (DEFAULT_SETTINGS\<lparr>pixelSize := Fin 0\<rparr>) = Fin (of_int 0)"
      "- 48 \<le> (0::int)" "(0::int) \<le> 48"
    by simp_all
  have n: "pixelSize (scenarioSettings\<lparr>pixelSize := Fin (- 4)\<rparr>) = Fin (of_int (- 4))"
      "- 48 \<le> (- 4::int)" "(- 4::int) \<le> 48"
      "mode (scenarioSettings\<lparr>pixelSize := Fin (- 4)\<rparr>) \<noteq> BAYER"
    by (simp_all add: scenarioSettings_def mode_names_distinct)
  from dimension_failures [OF p c(3) c(4) c(1), of zeroRandom graySource]
    dimension_failures [OF p c(4) c(4) c(1), of zeroRandom graySource]
    dimension_failures [OF z c(4) c(4) c(1), of zeroRandom graySource]
    dimension_failures [OF n(1,2,3) c(2) c(4) c(1), of zeroRandom graySource]
    dimension_failures [OF n(1,2,3) c(4) c(4) c(1), of zeroRandom graySource]
  show ?thesis using c p z n by simp
qed

section \<open>The palette\<close>


text \<open>
  For a colour string of the form \<^verbatim>\<open>#rrggbb\<close> the palette pixel holds the three
  bytes that the hex digits denote.
\<close>

lemma hexDigit_char:
  assumes "hexDigit c = Some d"
  shows "\<not> isWhiteSpace c" and "c \<noteq> CHR ''-''" and "c \<noteq> CHR ''+''"
    and "c \<noteq> CHR ''x''" and "c \<noteq> CHR ''X''" and "d < 16"
  using assms
  by (auto simp: hexDigit_def isWhiteSpace_def Let_def split: if_splits)

lemma parseInt16_two_digits:
  assumes "hexDigit a = Some x" and "hexDigit b = Some y"
  shows "parseInt16 [a, b] = Fin (real (16 * x + y))"
  using assms hexDigit_char [OF assms(1)] hexDigit_char [OF assms(2)]
  by (simp add: parseInt16_def)

lemma roundHalfEven_of_nat: "roundHalfEven (real n) = int n"
  by (simp add: roundHalfEven_def Let_def)

lemma toUint8Clamped_byte:
  assumes "n \<le> 255"
  shows "toUint8Clamped (Fin (real n)) = of_nat n"
proof -
  consider "n = 0" | "n = 255" | "0 < n" "n < 255" using assms by linarith
  then show ?thesis
  proof cases
    case 1 then show ?thesis by simp
  next
    case 2 then show ?thesis by simp
  next
    case 3 then show ?thesis by (simp add: roundHalfEven_of_nat)
  qed
qed

lemma palettePixel_of_valid_color:
  assumes "hexDigit r1 = Some a1" and "hexDigit r2 = Some a2"
    and "hexDigit g1 = Some b1" and "hexDigit g2 = Some b2"
    and "hexDigit c1 = Some d1" and "hexDigit c2 = Some d2"
  shows "palettePixel [CHR ''#'', r1, r2, g1, g2, c1, c2]
           = \<lparr>chR = of_nat (16 * a1 + a2), chG = of_nat (16 * b1 + b2),
              chB = of_nat (16 * d1 + d2), chA = 255\<rparr>"
proof -
  have le: "16 * a1 + a2 \<le> 255" "16 * b1 + b2 \<le> 255" "16 * d1 + d2 \<le> 255"
    using hexDigit_char(6) [OF assms(1)] hexDigit_char(6) [OF assms(2)]
      hexDigit_char(6) [OF assms(3)] hexDigit_char(6) [OF assms(4)]
      hexDigit_char(6) [OF assms(5)] hexDigit_char(6) [OF assms(6)] by linarith+
  have h: "hexToRgb [CHR ''#'', r1, r2, g1, g2, c1, c2]
      = \<lparr>rgb_r = Fin (real (16 * a1 + a2)), rgb_g = Fin (real (16 * b1 + b2)),
          rgb_b = Fin (real (16 * d1 + d2))\<rparr>"
    by (simp add: hexToRgb_def slice_def parseInt16_two_digits [OF assms(1,2)]
        parseInt16_two_digits [OF assms(3,4)] parseInt16_two_digits [OF assms(5,6)])
  show ?thesis
    unfolding palettePixel_def h
    by (simp only: rgb.simps toUint8Clamped_byte [OF le(1)] toUint8Clamped_byte [OF le(2)]
        toUint8Clamped_byte [OF le(3)])
qed






text \<open>
  The scenario of the specification: a mid-grey source of 8 by 8 with pixel size 4 in
  THRESHOLD mode, threshold 128, contrast 0 and brightness 0. The luminance of every
  working pixel is exactly \<open>128 / 255\<close>, the threshold, so every output pixel is
  the background colour, black.
\<close>

lemma scenario_gray:
  "pixelGray (contrastFactor (Fin 0)) (Fin 0) (graySource a b x y) = Fin (128 / 255)"
  by (simp add: pixelGray_def contrastFactor_def toneChannel_def luminance_def jsub_def
      graySource_def jmin_def jmax_def Let_def)

lemma scenario_pixel:
  "processPixel scenarioSettings (hexToRgb ''#000000'') (hexToRgb ''#FFFFFF'')
         (contrastFactor (Fin 0)) w rng k (graySource a b x y)
       = Inr \<lparr>chR = 0, chG = 0, chB = 0, chA = 255\<rparr>"
proof -
  have b: "pixelBit scenarioSettings (Fin (128 / 255)) u v r = Inr 0" for u v r
    by (simp add: pixelBit_def ditherOutput_def applyInvert_def scenarioSettings_def
        default_fields mode_names_distinct)
  have f: "brightness scenarioSettings = Fin 0"
    by (simp add: scenarioSettings_def default_fields)
  show ?thesis
    unfolding processPixel_def Let_def f scenario_gray b
    by (simp add: paletteWrite_def hex_black)
qed

lemma scenario_output_is_black:
  assumes "x < 8" and "y < 8"
  shows "outputPixel (processImage rng graySource 8 8 scenarioSettings) x y
           = Some \<lparr>chR = 0, chG = 0, chB = 0, chA = 255\<rparr>"
proof -
  have f: "pixelSize scenarioSettings = Fin 4" "colorA scenarioSettings = ''#000000''"
    "colorB scenarioSettings = ''#FFFFFF''" "contrast scenarioSettings = Fin 0"
    by (simp_all add: scenarioSettings_def default_fields)
  have h: "pixelSize scenarioSettings = Fin (real 4)" "(1::nat) \<le> 4" "(4::nat) \<le> 48"
      "(4::nat) \<le> 8" "(8::nat) < 2 ^ 31" "has2d createCanvas"
    by (simp_all add: f createCanvas_def)
  from apply_integer [OF h(1) h(2) h(3) h(4) h(5) h(4) h(5) h(6), of rng graySource]
  obtain temp res where all:
      "workingCanvas rng graySource 8 8 scenarioSettings = Inr (Some temp)
           \<and> cwidth temp = 8 div 4 \<and> cheight temp = 8 div 4
           \<and> 0 < cwidth temp \<and> 0 < cheight temp
           \<and> (\<forall>x<cwidth temp. \<forall>y<cheight temp.
                 processPixel scenarioSettings (hexToRgb (colorA scenarioSettings))
                   (hexToRgb (colorB scenarioSettings))
                   (contrastFactor (contrast scenarioSettings)) (Fin (real (cwidth temp))) rng
                   (y * cwidth temp + x) (graySource (cwidth temp) (cheight temp) x y)
                 = Inr (cpix temp x y))
           \<and> applyFiltersToCanvas rng graySource 8 8 scenarioSettings createCanvas = Inr res
           \<and> cwidth res = 8 \<and> cheight res = 8
           \<and> (\<forall>x<8. \<forall>y<8.
                 cpix res x y = cpix temp (nearest (cwidth temp) 8 x) (nearest (cheight temp) 8 y))"
    by (elim exE)
  define i where "i = nearest (cwidth temp) 8 x"
  define j where "j = nearest (cheight temp) 8 y"
  from all have pos: "0 < cwidth temp" "0 < cheight temp" by blast+
  have ij: "i < cwidth temp" "j < cheight temp"
    unfolding i_def j_def using assms pos by (simp_all add: nearest_less)
  from all have r: "applyFiltersToCanvas rng graySource 8 8 scenarioSettings createCanvas = Inr res"
    "cwidth res = 8" "cheight res = 8" by blast+
  from all assms have c: "cpix res x y = cpix temp i j" by (simp add: i_def j_def)
  from all ij have "processPixel scenarioSettings (hexToRgb (colorA scenarioSettings))
                   (hexToRgb (colorB scenarioSettings))
                   (contrastFactor (contrast scenarioSettings)) (Fin (real (cwidth temp))) rng
                   (j * cwidth temp + i) (graySource (cwidth temp) (cheight temp) i j)
                 = Inr (cpix temp i j)"
    by blast
  then have "cpix temp i j = \<lparr>chR = 0, chG = 0, chB = 0, chA = 255\<rparr>"
    by (simp add: f scenario_pixel)
  then show ?thesis
    unfolding processImage_def using assms by (simp add: outputPixel_def r c)
qed

section \<open>Determinism\<close>

lemma ditherOutput_random:
  assumes "mode s \<noteq> STOCHASTIC"
  shows "ditherOutput s gray x y u = ditherOutput s gray x y u'"
  using assms by (simp add: ditherOutput_def)

lemma processPixel_random:
  assumes "mode s \<noteq> STOCHASTIC"
  shows "processPixel s rgbA rgbB cf w rng k p = processPixel s rgbA rgbB cf w rng' k p"
  unfolding processPixel_def pixelBit_def Let_def
  using ditherOutput_random [OF assms, of _ _ _ "rng k" "rng' k"] by simp

lemma filterLoop_random:
  assumes "mode s \<noteq> STOCHASTIC"
  shows "filterLoop s rgbA rgbB cf w rng k ps = filterLoop s rgbA rgbB cf w rng' k ps"
proof (induction ps arbitrary: k)
  case Nil
  show ?case by simp
next
  case (Cons p ps)
  show ?case
    by (simp add: processPixel_random [OF assms, of rgbA rgbB cf w rng k p rng']
        Cons.IH [of "Suc k"] cong: sum.case_cong)
qed

lemma workingCanvas_random:
  assumes "mode s \<noteq> STOCHASTIC"
  shows "workingCanvas rng src wd ht s = workingCanvas rng' src wd ht s"
  unfolding workingCanvas_def Let_def
  by (simp add: filterLoop_random [OF assms, of _ _ _ _ rng _ _ rng'] cong: sum.case_cong)

text \<open>
  Claim C7. When the mode is not STOCHASTIC, two calls on the same source with the same
  settings and the same output canvas give the same result whatever the random source
  returns in each of them: the output buffers are identical.
\<close>

theorem deterministic_without_random_mode:
  assumes "mode s \<noteq> STOCHASTIC"
  shows "applyFiltersToCanvas rng src wd ht s out = applyFiltersToCanvas rng' src wd ht s out"
  unfolding applyFiltersToCanvas_def
  by (simp add: workingCanvas_random [OF assms, of rng src wd ht rng'])

theorem deterministic_without_random_mode_witness:
  "mode DEFAULT_SETTINGS \<noteq> STOCHASTIC
   \<and> applyFiltersToCanvas zeroRandom graySource 4 4 DEFAULT_SETTINGS createCanvas
       = applyFiltersToCanvas halfRandom graySource 4 4 DEFAULT_SETTINGS createCanvas"
proof -
  have h: "mode DEFAULT_SETTINGS \<noteq> STOCHASTIC"
    by (simp add: default_fields mode_names_distinct)
  from deterministic_without_random_mode [OF h, of zeroRandom graySource 4 4 createCanvas halfRandom]
  show ?thesis using h by simp
qed

section \<open>The invert law\<close>

lemma paletteWrite_swap:
  assumes "b = 0 \<or> b = 1"
  shows "paletteWrite rgbA rgbB (1 - b) = paletteWrite rgbB rgbA b"
  using assms by (auto simp: paletteWrite_def)

lemma ditherOutput_fields:
  assumes "mode s' = mode s" and "threshold s' = threshold s" and "dotScale s' = dotScale s"
  shows "ditherOutput s' gray x y u = ditherOutput s gray x y u"
  using assms by (simp add: ditherOutput_def cong: sum.case_cong)

lemma processPixel_invert:
  "processPixel (s\<lparr>invert := True\<rparr>) rgbA rgbB cf w rng k p
     = processPixel (swapColors (s\<lparr>invert := False\<rparr>)) rgbB rgbA cf w rng k p"
proof -
  let ?s1 = "s\<lparr>invert := True\<rparr>"
  let ?s2 = "swapColors (s\<lparr>invert := False\<rparr>)"
  let ?g = "pixelGray cf (brightness s) p"
  let ?x = "jmod (Fin (real k)) w"
  let ?y = "jfloor (jdiv (Fin (real k)) w)"
  have f: "brightness ?s1 = brightness s" "brightness ?s2 = brightness s"
    by (simp_all add: swapColors_def)
  have i: "applyInvert ?s1 b = 1 - b" "applyInvert ?s2 b = b" for b
    by (simp_all add: applyInvert_def swapColors_def)
  have d1: "ditherOutput ?s1 ?g ?x ?y (rng k) = ditherOutput s ?g ?x ?y (rng k)"
    by (rule ditherOutput_fields) simp_all
  have d2: "ditherOutput ?s2 ?g ?x ?y (rng k) = ditherOutput s ?g ?x ?y (rng k)"
    by (rule ditherOutput_fields) (simp_all add: swapColors_def)
  show ?thesis
  proof (cases "ditherOutput s ?g ?x ?y (rng k)")
    case (Inl e)
    show ?thesis
      unfolding processPixel_def pixelBit_def Let_def f d1 d2 Inl by simp
  next
    case (Inr b)
    then have "b = 0 \<or> b = 1" by (rule ditherOutput_bit)
    then have "paletteWrite rgbA rgbB (1 - b) = paletteWrite rgbB rgbA b"
      by (rule paletteWrite_swap)
    then show ?thesis
      unfolding processPixel_def pixelBit_def Let_def f d1 d2 Inr by (simp add: i)
  qed
qed

lemma filterLoop_invert:
  "filterLoop (s\<lparr>invert := True\<rparr>) rgbA rgbB cf w rng k ps
     = filterLoop (swapColors (s\<lparr>invert := False\<rparr>)) rgbB rgbA cf w rng k ps"
proof (induction ps arbitrary: k)
  case Nil
  show ?case by simp
next
  case (Cons p ps)
  show ?case
    by (simp add: processPixel_invert Cons.IH [of "Suc k"] cong: sum.case_cong)
qed

lemma workingCanvas_invert:
  "workingCanvas rng src wd ht (s\<lparr>invert := True\<rparr>)
     = workingCanvas rng src wd ht (swapColors (s\<lparr>invert := False\<rparr>))"
proof -
  have f: "pixelSize (swapColors (s\<lparr>invert := False\<rparr>)) = pixelSize s"
    "contrast (swapColors (s\<lparr>invert := False\<rparr>)) = contrast s"
    "colorA (swapColors (s\<lparr>invert := False\<rparr>)) = colorB s"
    "colorB (swapColors (s\<lparr>invert := False\<rparr>)) = colorA s"
    by (simp_all add: swapColors_def)
  show ?thesis
    unfolding workingCanvas_def Let_def f
    by (simp add: filterLoop_invert cong: sum.case_cong)
qed

text \<open>
  Claim C6. When the mode is not STOCHASTIC, the call with \<open>invert\<close> on gives the same
  result as the call with \<open>invert\<close> off and the two palette colours exchanged (each
  call with its own random source).
\<close>

theorem invert_is_palette_swap:
  assumes "mode s \<noteq> STOCHASTIC"
  shows "applyFiltersToCanvas rng src wd ht (s\<lparr>invert := True\<rparr>) out
       = applyFiltersToCanvas rng' src wd ht (swapColors (s\<lparr>invert := False\<rparr>)) out"
proof -
  have m: "mode (s\<lparr>invert := True\<rparr>) \<noteq> STOCHASTIC" using assms by simp
  have "workingCanvas rng src wd ht (s\<lparr>invert := True\<rparr>)
      = workingCanvas rng' src wd ht (s\<lparr>invert := True\<rparr>)"
    by (rule workingCanvas_random [OF m])
  then have "workingCanvas rng src wd ht (s\<lparr>invert := True\<rparr>)
      = workingCanvas rng' src wd ht (swapColors (s\<lparr>invert := False\<rparr>))"
    by (simp only: workingCanvas_invert)
  then show ?thesis by (simp only: applyFiltersToCanvas_def)
qed

theorem invert_is_palette_swap_witness:
  "mode DEFAULT_SETTINGS \<noteq> STOCHASTIC
   \<and> applyFiltersToCanvas zeroRandom graySource 4 4 (DEFAULT_SETTINGS\<lparr>invert := True\<rparr>) createCanvas
       = applyFiltersToCanvas halfRandom graySource 4 4
           (swapColors (DEFAULT_SETTINGS\<lparr>invert := False\<rparr>)) createCanvas"
proof -
  have h: "mode DEFAULT_SETTINGS \<noteq> STOCHASTIC"
    by (simp add: default_fields mode_names_distinct)
  from invert_is_palette_swap [OF h, of zeroRandom graySource 4 4 createCanvas halfRandom]
  show ?thesis using h by simp
qed

section \<open>The contrast that reaches the engine\<close>

lemma handleEvent_contrast:
  assumes "controlEvent e" and "contrastInRange s"
  shows "contrastInRange (handleEvent s e)"
  using assms by (cases e) (auto simp: contrastInRange_def default_fields)

lemma foldl_contrast:
  assumes "list_all controlEvent evs" and "contrastInRange s"
  shows "contrastInRange (foldl handleEvent s evs)"
  using assms
proof (induction evs arbitrary: s)
  case Nil
  then show ?case by simp
next
  case (Cons e evs)
  then show ?case by (simp add: handleEvent_contrast)
qed

text \<open>
  Claim C8, as stated, fails: nothing validates a configuration. A suggestion with the
  contrast 259 is merged as it is; the settings then hold the contrast 259, the
  denominator \<open>255 (259 - contrast)\<close> is 0, the contrast factor evaluates to
  \<open>Infinity\<close> (the luminance of a mid-grey pixel then is NaN), and the engine
  runs to the end with it.
\<close>

theorem suggested_contrast_counterexample:
  "contrast (settingsAfter [AiSuggestion (emptySuggestion\<lparr>s_contrast := Some (Fin 259)\<rparr>)]) = Fin 259
   \<and> jmul (Fin 255) (jsub (Fin 259) (Fin 259)) = Fin 0
   \<and> contrastFactor (Fin 259) = PInf
   \<and> pixelGray (contrastFactor (Fin 259)) (Fin 0) (graySource 1 1 0 0) = NaN
   \<and> outputSize (processImage zeroRandom graySource 4 4
        (settingsAfter [AiSuggestion (emptySuggestion\<lparr>s_contrast := Some (Fin 259)\<rparr>)])) = Some (4, 4)"
proof -
  let ?s = "settingsAfter [AiSuggestion (emptySuggestion\<lparr>s_contrast := Some (Fin 259)\<rparr>)]"
  have f: "contrast ?s = Fin 259" "pixelSize ?s = Fin 4"
    by (simp_all add: settingsAfter_def mergeSuggestion_def emptySuggestion_def orElse_def default_fields)
  have d: "jmul (Fin 255) (jsub (Fin 259) (Fin 259)) = Fin 0" "contrastFactor (Fin 259) = PInf"
    by (simp_all add: contrastFactor_def jsub_def signed_inf_def)
  have g: "pixelGray (contrastFactor (Fin 259)) (Fin 0) (graySource 1 1 0 0) = NaN"
    by (simp add: d pixelGray_def toneChannel_def luminance_def jsub_def graySource_def
        signed_inf_def jmin_def jmax_def Let_def)
  have h: "pixelSize ?s = Fin (real 4)" "(1::nat) \<le> 4" "(4::nat) \<le> 48"
      "(4::nat) \<le> 4" "(4::nat) < 2 ^ 31" "has2d createCanvas"
    by (simp_all add: f createCanvas_def)
  from apply_integer [OF h(1) h(2) h(3) h(4) h(5) h(4) h(5) h(6), of zeroRandom graySource]
  have "outputSize (processImage zeroRandom graySource 4 4 ?s) = Some (4, 4)"
    unfolding processImage_def by (auto simp: outputSize_def)
  then show ?thesis using f d g by simp
qed

text \<open>
  Claim C8, amended. The settings that the controls alone produce (range inputs,
  buttons, colour inputs, presets and reset, starting from the defaults) always hold a
  contrast between -100 and 100: it is never 259, the denominator of the contrast
  factor is not zero, and the factor is the finite value of the formula. A suggested
  contrast is not checked.
\<close>

theorem controls_keep_contrast_in_range:
  assumes "list_all controlEvent evs"
  shows "\<exists>c. contrast (settingsAfter evs) = Fin c \<and> - 100 \<le> c \<and> c \<le> 100
           \<and> jmul (Fin 255) (jsub (Fin 259) (contrast (settingsAfter evs))) \<noteq> Fin 0
           \<and> contrastFactor (contrast (settingsAfter evs)) = Fin (spec_factor c)"
proof -
  have "contrastInRange DEFAULT_SETTINGS"
    by (simp add: contrastInRange_def default_fields)
  then have "contrastInRange (settingsAfter evs)"
    unfolding settingsAfter_def using assms by (intro foldl_contrast)
  then obtain c where c: "contrast (settingsAfter evs) = Fin c" "- 100 \<le> c" "c \<le> 100"
    unfolding contrastInRange_def by (cases "contrast (settingsAfter evs)") simp_all
  then have "c \<noteq> 259" by simp
  then show ?thesis using c by (simp add: contrastFactor_finite jsub_def)
qed

theorem controls_keep_contrast_in_range_witness:
  "list_all controlEvent [ContrastSlider 100, InvertToggle]
   \<and> contrast (settingsAfter [ContrastSlider 100, InvertToggle]) = Fin 100
   \<and> contrastFactor (contrast (settingsAfter [ContrastSlider 100, InvertToggle])) = Fin (18389 / 8109)"
proof -
  have h: "list_all controlEvent [ContrastSlider 100, InvertToggle]" by simp
  have c: "contrast (settingsAfter [ContrastSlider 100, InvertToggle]) = Fin 100"
    by (simp add: settingsAfter_def)
  from controls_keep_contrast_in_range [OF h]
  show ?thesis using h c by (simp add: spec_factor_def)
qed

section \<open>The video export\<close>

lemma exportStep_looping:
  assumes "looping a"
  shows "looping (exportStep a e)"
proof (cases e)
  case Tick
  then show ?thesis using assms by (simp add: looping_def progressTick_def Let_def)
next
  case (Play dt)
  then show ?thesis using assms
    by (cases "duration (vid a)") (simp_all add: looping_def playback_def Let_def)
qed

lemma exportRun_looping:
  assumes "looping a"
  shows "looping (exportRun a es)"
  using assms unfolding exportRun_def
  by (induction es arbitrary: a) (simp_all add: exportStep_looping)

text \<open>
  On the video element of the application, which loops, an export never ends: whatever
  the duration and however playback and timer callbacks interleave, the export flag
  stays set, the recorder keeps recording and no file is offered.
\<close>

lemma export_flag_stays_set:
  "isExporting (exportRun (exportMedia (initialApp (videoElement d))) es)
   \<and> recording (exportRun (exportMedia (initialApp (videoElement d))) es)
   \<and> downloads (exportRun (exportMedia (initialApp (videoElement d))) es) = 0"
proof -
  have "looping (exportMedia (initialApp (videoElement d)))"
    by (simp add: looping_def exportMedia_def initialApp_def videoElement_def)
  then have "looping (exportRun (exportMedia (initialApp (videoElement d))) es)"
    by (rule exportRun_looping)
  then show ?thesis by (simp add: looping_def)
qed

text \<open>A timer callback that finds the duration unknown (NaN) or zero changes nothing.\<close>

lemma unknown_duration_tick_skipped:
  assumes "duration (vid a) = NaN \<or> duration (vid a) = Fin 0"
  shows "progressTick a = a"
  using assms by (auto simp: progressTick_def)

text \<open>
  On a video element without the \<^verbatim>\<open>loop\<close> attribute the same code behaves as
  intended: for a video of 10 seconds sampled every half second the progress rises from
  5 to 95 while the export flag is set, and when playback ends the recorder is stopped,
  one file is offered and the flag is reset (the last callback then stores 100).
\<close>

lemma export_completes_without_loop:
  "progressSeq (exportMedia (initialApp ((videoElement (Fin 10))\<lparr>loop := False\<rparr>))) (halfSeconds 20)
     = map Fin [5, 10, 15, 20, 25, 30, 35, 40, 45, 50, 55, 60, 65, 70, 75, 80, 85, 90, 95, 100]
   \<and> isExporting (exportRun (exportMedia (initialApp ((videoElement (Fin 10))\<lparr>loop := False\<rparr>)))
        (halfSeconds 19))
   \<and> \<not> isExporting (exportRun (exportMedia (initialApp ((videoElement (Fin 10))\<lparr>loop := False\<rparr>)))
        (halfSeconds 20))
   \<and> downloads (exportRun (exportMedia (initialApp ((videoElement (Fin 10))\<lparr>loop := False\<rparr>)))
        (halfSeconds 20)) = 1"
  by code_simp

text \<open>
  Claim C9 at a video of 10 seconds, sampled every half second, on the video element as
  the application renders it: the progress values rise to 95, then fall back to 0 when
  playback wraps around, and never reach 100; after 20 and after 40 seconds of playback
  the export flag is still set, the recorder still records and no file has been
  offered. The flag goes from false to true and never back.
\<close>

theorem looped_export_never_completes:
  "\<not> isExporting (initialApp (videoElement (Fin 10)))
   \<and> isExporting (exportMedia (initialApp (videoElement (Fin 10))))
   \<and> progressSeq (exportMedia (initialApp (videoElement (Fin 10)))) (halfSeconds 22)
       = map Fin [5, 10, 15, 20, 25, 30, 35, 40, 45, 50, 55, 60, 65, 70, 75, 80, 85, 90, 95, 0, 5, 10]
   \<and> isExporting (exportRun (exportMedia (initialApp (videoElement (Fin 10)))) (halfSeconds 40))
   \<and> recording (exportRun (exportMedia (initialApp (videoElement (Fin 10)))) (halfSeconds 40))
   \<and> downloads (exportRun (exportMedia (initialApp (videoElement (Fin 10)))) (halfSeconds 40)) = 0
   \<and> isExporting (exportRun (exportMedia (initialApp (videoElement (Fin 10)))) (halfSeconds 80))"
  by code_simp

end
